theory Spec2Isabelle
  imports Main "HOL-Library.Word"
begin

unbundle bit_operations_syntax

section \<open>Data of the routing interface\<close>

text \<open>
  The monitors of \<^verbatim>\<open>tunnel/mtumonitor.go\<close> and \<^verbatim>\<open>tunnel/proxy.go\<close> talk to the
  operating system through the package \<^verbatim>\<open>winipcfg\<close>, whose code is not part of the
  files verified here. Its types are modelled with the fields the monitors read, and
  its calls are taken as parameters (the record \<open>winipcfg\<close> below): a theorem that
  assumes nothing of them holds for every behaviour of the operating system.

  A Go \<^verbatim>\<open>error\<close> is a value of \<open>error option\<close>: \<open>None\<close> is \<^verbatim>\<open>nil\<close>. The two
  error values the monitors compare against are constructors of their own.
\<close>

datatype error = ERROR_OBJECT_ALREADY_EXISTS | ERROR_NOT_FOUND | ERROR_OTHER nat

type_synonym LUID = "64 word"
type_synonym AddressFamily = "16 word"

definition AF_INET :: AddressFamily where
  "AF_INET = 2"

definition AF_INET6 :: AddressFamily where
  "AF_INET6 = 23"

text \<open>
  \<^verbatim>\<open>netip.Addr\<close> of the Go library: the zero value, an IPv4 address, or an IPv6
  address with its zone. \<^verbatim>\<open>Is4\<close> is false for an IPv4-mapped IPv6 address, which
  is an \<open>Addr6\<close>.
\<close>

datatype Addr = AddrZero | Addr4 "32 word" | Addr6 "128 word" string

fun Is4 :: "Addr \<Rightarrow> bool" where
  "Is4 (Addr4 a) = True"
| "Is4 _ = False"

fun Is6 :: "Addr \<Rightarrow> bool" where
  "Is6 (Addr6 a z) = True"
| "Is6 _ = False"

fun BitLen :: "Addr \<Rightarrow> int" where
  "BitLen AddrZero = 0"
| "BitLen (Addr4 a) = 32"
| "BitLen (Addr6 a z) = 128"

fun withoutZone :: "Addr \<Rightarrow> Addr" where
  "withoutZone (Addr6 a z) = Addr6 a []"
| "withoutZone a = a"

text \<open>
  \<^verbatim>\<open>netip.Prefix\<close> and \<^verbatim>\<open>netip.PrefixFrom\<close> of the Go library: the zone is
  dropped, the host bits are kept, and a length out of range (or the zero address)
  gives the invalid length \<open>-1\<close>.
\<close>

record Prefix =
  Prefix_Addr :: Addr
  Prefix_Bits :: int

definition PrefixFrom :: "Addr \<Rightarrow> int \<Rightarrow> Prefix" where
  "PrefixFrom ip bits =
     \<lparr>Prefix_Addr = withoutZone ip,
      Prefix_Bits = (if ip \<noteq> AddrZero \<and> 0 \<le> bits \<and> bits \<le> BitLen ip then bits else -1)\<rparr>"

datatype IfOperStatus =
    IfOperStatusUp | IfOperStatusDown | IfOperStatusTesting | IfOperStatusUnknown
  | IfOperStatusDormant | IfOperStatusNotPresent | IfOperStatusLowerLayerDown

text \<open>
  A row of the forwarding table. \<open>PrefixLength\<close> is
  \<^verbatim>\<open>DestinationPrefix.PrefixLength\<close> and \<open>NextHop\<close> is the value of
  \<^verbatim>\<open>NextHop.Addr()\<close>.
\<close>

record MibIPforwardRow2 =
  InterfaceLUID :: LUID
  InterfaceIndex :: "32 word"
  PrefixLength :: "8 word"
  NextHop :: Addr
  Metric :: "32 word"

record MibIfRow2 =
  OperStatus :: IfOperStatus
  MTU :: "32 word"

text \<open>
  The per-family row of an interface; \<open>InterfaceMetric\<close> is its field \<^verbatim>\<open>Metric\<close>
  (renamed: the forwarding row has a field of that name too).
\<close>

record MibIPInterfaceRow =
  InterfaceMetric :: "32 word"
  NLMTU :: "32 word"

type_synonym ChangeCallback = nat

text \<open>
  The calls of \<^verbatim>\<open>winipcfg\<close>. The three reads are the topology snapshot of one pass:
  the forwarding table of a family, the row of an interface, the per-family row of an
  interface. The calls that change the operating system thread its state \<open>'s\<close>, of
  which nothing is assumed.
\<close>

record 's winipcfg =
  GetIPForwardTable2 :: "AddressFamily \<Rightarrow> error + MibIPforwardRow2 list"
  Interface :: "LUID \<Rightarrow> error + MibIfRow2"
  IPInterface :: "LUID \<Rightarrow> AddressFamily \<Rightarrow> error + MibIPInterfaceRow"
  AddRoute :: "'s \<Rightarrow> LUID \<Rightarrow> Prefix \<Rightarrow> Addr \<Rightarrow> 32 word \<Rightarrow> error option \<times> 's"
  DeleteRoute :: "'s \<Rightarrow> LUID \<Rightarrow> Prefix \<Rightarrow> Addr \<Rightarrow> error option \<times> 's"
  IPInterface_Set :: "'s \<Rightarrow> LUID \<Rightarrow> AddressFamily \<Rightarrow> MibIPInterfaceRow \<Rightarrow> error option \<times> 's"
  RegisterRouteChangeCallback :: "error + ChangeCallback"
  RegisterInterfaceChangeCallback :: "error + ChangeCallback"
  Unregister :: "'s \<Rightarrow> ChangeCallback \<Rightarrow> error option \<times> 's"

text \<open>
  What an operation leaves behind: the state of the operating system, the calls it
  made that change the operating system (oldest first, each with its result) and the
  lines it logged.
\<close>

datatype call =
    CallAddRoute LUID Prefix Addr "32 word"
  | CallDeleteRoute LUID Prefix Addr
  | CallSet LUID AddressFamily MibIPInterfaceRow
  | CallUnregister ChangeCallback

datatype logline =
    FailedToAddRoute Prefix Addr error
  | FailedToDeleteRoute Prefix Addr error

record 's effects =
  os :: 's
  calls :: "(call \<times> error option) list"
  logs :: "logline list"

section \<open>tunnel/mtumonitor.go\<close>

subsection \<open>iterateForeignDefaultRoutes\<close>

text \<open>
  The callback of the Go function is a closure that changes the variables it
  captures; here it takes them as \<open>acc\<close> and returns them with its error. The loop
  over the rows of the table is \<open>iterateRows\<close>.
\<close>

fun iterateRows ::
  "'s winipcfg \<Rightarrow> LUID \<Rightarrow> (MibIPforwardRow2 \<Rightarrow> 'a \<Rightarrow> error option \<times> 'a) \<Rightarrow>
   MibIPforwardRow2 list \<Rightarrow> 'a \<Rightarrow> error option \<times> 'a" where
  "iterateRows env ourLUID callback [] acc = (None, acc)"
| "iterateRows env ourLUID callback (r # rs) acc =
     (if PrefixLength r \<noteq> 0 \<or> InterfaceLUID r = ourLUID
      then iterateRows env ourLUID callback rs acc
      else case Interface env (InterfaceLUID r) of
          Inl err \<Rightarrow> iterateRows env ourLUID callback rs acc
        | Inr ifrow \<Rightarrow>
            if OperStatus ifrow \<noteq> IfOperStatusUp
            then iterateRows env ourLUID callback rs acc
            else (case callback r acc of
                (Some err, acc') \<Rightarrow> (Some err, acc')
              | (None, acc') \<Rightarrow> iterateRows env ourLUID callback rs acc'))"

definition iterateForeignDefaultRoutes ::
  "'s winipcfg \<Rightarrow> AddressFamily \<Rightarrow> LUID \<Rightarrow>
   (MibIPforwardRow2 \<Rightarrow> 'a \<Rightarrow> error option \<times> 'a) \<Rightarrow> 'a \<Rightarrow> error option \<times> 'a" where
  "iterateForeignDefaultRoutes env family ourLUID callback acc =
     (case GetIPForwardTable2 env family of
        Inl err \<Rightarrow> (Some err, acc)
      | Inr r \<Rightarrow> iterateRows env ourLUID callback r acc)"

subsection \<open>findDefaultLUID\<close>

text \<open>
  The closure's variables are \<open>(lowestMetric, index, luid)\<close>. The sum of the two
  metrics is a \<^verbatim>\<open>uint32\<close> sum and wraps around.
\<close>

definition findDefaultLUID_callback ::
  "'s winipcfg \<Rightarrow> AddressFamily \<Rightarrow> MibIPforwardRow2 \<Rightarrow>
   32 word \<times> 32 word \<times> LUID \<Rightarrow> error option \<times> (32 word \<times> 32 word \<times> LUID)" where
  "findDefaultLUID_callback env family r acc =
     (case acc of (lowestMetric, index, luid) \<Rightarrow>
        (case IPInterface env (InterfaceLUID r) family of
           Inl err \<Rightarrow> (None, acc)
         | Inr iface \<Rightarrow>
             if Metric r + InterfaceMetric iface < lowestMetric
             then (None, (Metric r + InterfaceMetric iface, InterfaceIndex r, InterfaceLUID r))
             else (None, acc)))"

text \<open>
  \<open>findDefaultLUID\<close> writes through the pointers \<^verbatim>\<open>lastLUID\<close> and \<^verbatim>\<open>lastIndex\<close>;
  here it takes their values (\<open>lastLUID0\<close>, \<open>lastIndex0\<close>) and returns the new ones.
\<close>

definition findDefaultLUID ::
  "'s winipcfg \<Rightarrow> AddressFamily \<Rightarrow> LUID \<Rightarrow> LUID \<Rightarrow> 32 word \<Rightarrow>
   error option \<times> (LUID \<times> 32 word)" where
  "findDefaultLUID env family ourLUID lastLUID0 lastIndex0 =
     (case iterateForeignDefaultRoutes env family ourLUID
             (findDefaultLUID_callback env family) (NOT 0, 0, 0) of
        (Some err, acc) \<Rightarrow> (Some err, (lastLUID0, lastIndex0))
      | (None, (lowestMetric, index, luid)) \<Rightarrow>
          if luid = lastLUID0 \<and> index = lastIndex0
          then (None, (lastLUID0, lastIndex0))
          else (None, (luid, index)))"

subsection \<open>monitorMTU\<close>

definition minMTU :: "AddressFamily \<Rightarrow> 32 word" where
  "minMTU family =
     (if family = AF_INET then 576 else if family = AF_INET6 then 1280 else 0)"

text \<open>The variables the closure \<^verbatim>\<open>doIt\<close> of \<^verbatim>\<open>monitorMTU\<close> captures.\<close>

record mtuVars =
  lastLUID :: LUID
  lastIndex :: "32 word"
  lastMTU :: "32 word"

definition mtuVars_init :: mtuVars where
  "mtuVars_init = \<lparr>lastLUID = 0, lastIndex = NOT 0, lastMTU = 0\<rparr>"

text \<open>
  The closure \<^verbatim>\<open>doIt\<close> of \<^verbatim>\<open>monitorMTU\<close>: one MTU pass. It returns its error, the
  variables as it leaves them and its effects, starting from the state \<open>s\<close> of the
  operating system.
\<close>

definition monitorMTU_doIt ::
  "'s winipcfg \<Rightarrow> AddressFamily \<Rightarrow> LUID \<Rightarrow> mtuVars \<Rightarrow> 's \<Rightarrow>
   error option \<times> mtuVars \<times> 's effects" where
  "monitorMTU_doIt env family ourLUID v s =
     (case findDefaultLUID env family ourLUID (lastLUID v) (lastIndex v) of
        (Some err, l) \<Rightarrow> (Some err, v, \<lparr>os = s, calls = [], logs = []\<rparr>)
      | (None, (luid, index)) \<Rightarrow>
          (let v1 = v\<lparr>lastLUID := luid, lastIndex := index\<rparr> in
           case (if lastLUID v1 \<noteq> 0
                 then (case Interface env (lastLUID v1) of
                         Inl err \<Rightarrow> Inl err
                       | Inr iface \<Rightarrow> Inr (if MTU iface > 0 then MTU iface else 0))
                 else Inr 0) of
             Inl err \<Rightarrow> (Some err, v1, \<lparr>os = s, calls = [], logs = []\<rparr>)
           | Inr mtu \<Rightarrow>
               if mtu > 0 \<and> lastMTU v1 \<noteq> mtu
               then (case IPInterface env ourLUID family of
                       Inl err \<Rightarrow> (Some err, v1, \<lparr>os = s, calls = [], logs = []\<rparr>)
                     | Inr iface \<Rightarrow>
                         (let iface1 = iface\<lparr>NLMTU := mtu - 80\<rparr>;
                              iface2 = (if NLMTU iface1 < minMTU family
                                        then iface1\<lparr>NLMTU := minMTU family\<rparr> else iface1)
                          in case IPInterface_Set env s ourLUID family iface2 of
                               (Some err, s') \<Rightarrow>
                                 (Some err, v1,
                                  \<lparr>os = s', calls = [(CallSet ourLUID family iface2, Some err)], logs = []\<rparr>)
                             | (None, s') \<Rightarrow>
                                 (None, v1\<lparr>lastMTU := mtu\<rparr>,
                                  \<lparr>os = s', calls = [(CallSet ourLUID family iface2, None)], logs = []\<rparr>)))
               else (None, v1, \<lparr>os = s, calls = [], logs = []\<rparr>)))"

text \<open>
  The two change callbacks of \<^verbatim>\<open>monitorMTU\<close>. A Go callback returns nothing: the
  result is the variables and the effects, with no place for an error. \<open>route\<close> is
  \<open>None\<close> for a \<^verbatim>\<open>nil\<close> pointer.
\<close>

datatype MibNotificationType =
    MibParameterNotification | MibAddInstance | MibDeleteInstance | MibInitialNotification

definition monitorMTU_routeChangeCallback ::
  "'s winipcfg \<Rightarrow> AddressFamily \<Rightarrow> LUID \<Rightarrow> MibNotificationType \<Rightarrow> MibIPforwardRow2 option \<Rightarrow>
   mtuVars \<Rightarrow> 's \<Rightarrow> mtuVars \<times> 's effects" where
  "monitorMTU_routeChangeCallback env family ourLUID notificationType route v s =
     (case route of
        None \<Rightarrow> (v, \<lparr>os = s, calls = [], logs = []\<rparr>)
      | Some r \<Rightarrow>
          if PrefixLength r = 0
          then (case monitorMTU_doIt env family ourLUID v s of (err, v', e) \<Rightarrow> (v', e))
          else (v, \<lparr>os = s, calls = [], logs = []\<rparr>))"

definition monitorMTU_interfaceChangeCallback ::
  "'s winipcfg \<Rightarrow> AddressFamily \<Rightarrow> LUID \<Rightarrow> MibNotificationType \<Rightarrow> MibIPInterfaceRow option \<Rightarrow>
   mtuVars \<Rightarrow> 's \<Rightarrow> mtuVars \<times> 's effects" where
  "monitorMTU_interfaceChangeCallback env family ourLUID notificationType iface v s =
     (if notificationType = MibParameterNotification
      then (case monitorMTU_doIt env family ourLUID v s of (err, v', e) \<Rightarrow> (v', e))
      else (v, \<lparr>os = s, calls = [], logs = []\<rparr>))"

text \<open>
  \<open>monitorMTU\<close> itself: the first pass, then the two registrations. It returns the
  callbacks or the error, with the variables and the effects of what it did.
\<close>

definition monitorMTU ::
  "'s winipcfg \<Rightarrow> AddressFamily \<Rightarrow> LUID \<Rightarrow> 's \<Rightarrow>
   (error + ChangeCallback list) \<times> mtuVars \<times> 's effects" where
  "monitorMTU env family ourLUID s =
     (case monitorMTU_doIt env family ourLUID mtuVars_init s of
        (Some err, v, e) \<Rightarrow> (Inl err, v, e)
      | (None, v, e) \<Rightarrow>
          (case RegisterRouteChangeCallback env of
             Inl err \<Rightarrow> (Inl err, v, e)
           | Inr cbr \<Rightarrow>
               (case RegisterInterfaceChangeCallback env of
                  Inl err \<Rightarrow>
                    (case Unregister env (os e) cbr of
                       (uerr, s') \<Rightarrow>
                         (Inl err, v,
                          e\<lparr>os := s', calls := calls e @ [(CallUnregister cbr, uerr)]\<rparr>))
                | Inr cbi \<Rightarrow> (Inr [cbr, cbi], v, e))))"

section \<open>tunnel/proxy.go\<close>

subsection \<open>Maps\<close>

text \<open>
  A Go map used as a set (\<^verbatim>\<open>map[K]bool\<close> holding only \<^verbatim>\<open>true\<close>) is a list
  without repetition; \<open>put\<close> is \<^verbatim>\<open>m[k] = true\<close>. A \<^verbatim>\<open>range\<close> loop over a map visits
  the keys in an order Go leaves open; the model visits them in the order of the
  list, and the theorems below speak of the set of the keys, for every list.
\<close>

definition put :: "'a \<Rightarrow> 'a list \<Rightarrow> 'a list" where
  "put k m = (if k \<in> set m then m else m @ [k])"

record proxy =
  Listen :: string
  Addresses :: "Addr list"

text \<open>
  \<^verbatim>\<open>destProxy\<close>, of type \<^verbatim>\<open>map[netip.Prefix][]*proxy\<close>: a list of keys with their
  values, no key twice. A pointer to a proxy is its position in \<^verbatim>\<open>proxies\<close>.
  \<open>destProxy_append m d p\<close> is \<^verbatim>\<open>m[d] = append(m[d], p)\<close> and \<open>destProxy_get m d\<close>
  is \<^verbatim>\<open>m[d]\<close>, empty for a key the map does not hold.
\<close>

type_synonym destProxyMap = "(Prefix \<times> nat list) list"

fun destProxy_append :: "destProxyMap \<Rightarrow> Prefix \<Rightarrow> nat \<Rightarrow> destProxyMap" where
  "destProxy_append [] d p = [(d, [p])]"
| "destProxy_append ((k, ps) # m) d p =
     (if k = d then (k, ps @ [p]) # m else (k, ps) # destProxy_append m d p)"

definition destProxy_get :: "destProxyMap \<Rightarrow> Prefix \<Rightarrow> nat list" where
  "destProxy_get m d = (case map_of m d of None \<Rightarrow> [] | Some ps \<Rightarrow> ps)"

subsection \<open>monitorProxyRoutes: the destinations\<close>

text \<open>The inner loop over \<^verbatim>\<open>p.Addresses\<close>, for the proxy at position \<open>p\<close>.\<close>

fun addAddresses :: "AddressFamily \<Rightarrow> nat \<Rightarrow> Addr list \<Rightarrow> destProxyMap \<Rightarrow> destProxyMap" where
  "addAddresses family p [] m = m"
| "addAddresses family p (addr # addrs) m =
     (if family = AF_INET \<and> \<not> Is4 addr then addAddresses family p addrs m
      else if family = AF_INET6 \<and> \<not> Is6 addr then addAddresses family p addrs m
      else addAddresses family p addrs (destProxy_append m (PrefixFrom addr (BitLen addr)) p))"

text \<open>The outer loop over \<^verbatim>\<open>proxies\<close>; \<open>i\<close> is the position of the next proxy.\<close>

fun addProxies :: "AddressFamily \<Rightarrow> nat \<Rightarrow> proxy list \<Rightarrow> destProxyMap \<Rightarrow> destProxyMap" where
  "addProxies family i [] m = m"
| "addProxies family i (p # ps) m =
     addProxies family (Suc i) ps (addAddresses family i (Addresses p) m)"

definition buildDestProxy :: "AddressFamily \<Rightarrow> proxy list \<Rightarrow> destProxyMap" where
  "buildDestProxy family proxies = addProxies family 0 proxies []"

subsection \<open>monitorProxyRoutes: the pass\<close>

record luidRouteData =
  luid :: LUID
  destination :: Prefix
  nextHop :: Addr

text \<open>
  The variables of one pass of the closure \<^verbatim>\<open>doIt\<close>: its effects so far, with
  \<^verbatim>\<open>newRoutes\<close> and \<^verbatim>\<open>proxiesToRestart\<close>.
\<close>

record 's pass = "'s effects" +
  newRoutes :: "luidRouteData list"
  proxiesToRestart :: "nat list"

text \<open>
  The body of the callback that \<^verbatim>\<open>doIt\<close> hands to \<open>iterateForeignDefaultRoutes\<close>:
  the loop over the keys \<open>ds\<close> of \<^verbatim>\<open>destProxy\<close>, for the row \<open>r\<close>.
\<close>

fun addRoutes ::
  "'s winipcfg \<Rightarrow> destProxyMap \<Rightarrow> MibIPforwardRow2 \<Rightarrow> Prefix list \<Rightarrow> 's pass \<Rightarrow> 's pass" where
  "addRoutes env destProxy r [] st = st"
| "addRoutes env destProxy r (d # ds) st =
     (case AddRoute env (os st) (InterfaceLUID r) d (NextHop r) 0 of
        (err, s') \<Rightarrow>
          (let st1 = st\<lparr>os := s',
                        calls := calls st @ [(CallAddRoute (InterfaceLUID r) d (NextHop r) 0, err)]\<rparr>;
               st2 = (case err of
                        None \<Rightarrow> st1\<lparr>proxiesToRestart :=
                                      fold put (destProxy_get destProxy d) (proxiesToRestart st1)\<rparr>
                      | Some e \<Rightarrow> st1);
               st3 = (case err of
                        None \<Rightarrow>
                          st2\<lparr>newRoutes :=
                                put \<lparr>luid = InterfaceLUID r, destination = d, nextHop = NextHop r\<rparr>
                                  (newRoutes st2)\<rparr>
                      | Some e \<Rightarrow>
                          if e = ERROR_OBJECT_ALREADY_EXISTS
                          then st2\<lparr>newRoutes :=
                                put \<lparr>luid = InterfaceLUID r, destination = d, nextHop = NextHop r\<rparr>
                                  (newRoutes st2)\<rparr>
                          else st2\<lparr>logs := logs st2 @ [FailedToAddRoute d (NextHop r) e]\<rparr>)
           in addRoutes env destProxy r ds st3))"

text \<open>The loop of \<^verbatim>\<open>doIt\<close> over \<^verbatim>\<open>ourRoutes\<close>, which deletes the routes not kept.\<close>

fun deleteStale ::
  "'s winipcfg \<Rightarrow> destProxyMap \<Rightarrow> luidRouteData list \<Rightarrow> 's pass \<Rightarrow> 's pass" where
  "deleteStale env destProxy [] st = st"
| "deleteStale env destProxy (r # rs) st =
     (if r \<notin> set (newRoutes st)
      then (case DeleteRoute env (os st) (luid r) (destination r) (nextHop r) of
              (err, s') \<Rightarrow>
                (let st1 = st\<lparr>os := s',
                              calls := calls st @
                                [(CallDeleteRoute (luid r) (destination r) (nextHop r), err)]\<rparr>;
                     st2 = (case err of
                              None \<Rightarrow> st1\<lparr>proxiesToRestart :=
                                  fold put (destProxy_get destProxy (destination r))
                                    (proxiesToRestart st1)\<rparr>
                            | Some e \<Rightarrow>
                                if e \<noteq> ERROR_NOT_FOUND
                                then st1\<lparr>logs := logs st1 @
                                       [FailedToDeleteRoute (destination r) (nextHop r) e]\<rparr>
                                else st1)
                 in deleteStale env destProxy rs st2))
      else deleteStale env destProxy rs st)"

text \<open>
  The closure \<^verbatim>\<open>doIt\<close> of \<^verbatim>\<open>monitorProxyRoutes\<close>: one reconciliation pass, from the
  tracked set \<open>ourRoutes0\<close> and the state \<open>s\<close> of the operating system. It returns
  its error, the new value of \<^verbatim>\<open>ourRoutes\<close> and its effects. The restart of the
  proxies is commented out in the source, so \<open>restartProxies\<close> and
  \<^verbatim>\<open>proxiesToRestart\<close> change nothing.
\<close>

definition monitorProxyRoutes_doIt ::
  "'s winipcfg \<Rightarrow> AddressFamily \<Rightarrow> LUID \<Rightarrow> destProxyMap \<Rightarrow> bool \<Rightarrow> luidRouteData list \<Rightarrow> 's \<Rightarrow>
   error option \<times> luidRouteData list \<times> 's effects" where
  "monitorProxyRoutes_doIt env family ourLUID destProxy restartProxies ourRoutes0 s =
     (case iterateForeignDefaultRoutes env family ourLUID
             (\<lambda>r st. (None, addRoutes env destProxy r (map fst destProxy) st))
             \<lparr>os = s, calls = [], logs = [], newRoutes = [], proxiesToRestart = []\<rparr> of
        (Some err, st) \<Rightarrow>
          (Some err, ourRoutes0, \<lparr>os = os st, calls = calls st, logs = logs st\<rparr>)
      | (None, st) \<Rightarrow>
          (let st' = deleteStale env destProxy ourRoutes0 st
           in (None, newRoutes st', \<lparr>os = os st', calls = calls st', logs = logs st'\<rparr>)))"

subsection \<open>monitorProxyRoutes: teardown, callbacks and start\<close>

text \<open>The loop of the closure \<^verbatim>\<open>cleanIt\<close> over \<^verbatim>\<open>ourRoutes\<close>.\<close>

fun cleanRoutes :: "'s winipcfg \<Rightarrow> luidRouteData list \<Rightarrow> 's effects \<Rightarrow> 's effects" where
  "cleanRoutes env [] e = e"
| "cleanRoutes env (r # rs) e =
     (case DeleteRoute env (os e) (luid r) (destination r) (nextHop r) of
        (err, s') \<Rightarrow>
          (let e1 = e\<lparr>os := s',
                      calls := calls e @
                        [(CallDeleteRoute (luid r) (destination r) (nextHop r), err)]\<rparr>;
               e2 = (case err of
                       None \<Rightarrow> e1
                     | Some x \<Rightarrow>
                         if x \<noteq> ERROR_NOT_FOUND
                         then e1\<lparr>logs := logs e1 @
                                [FailedToDeleteRoute (destination r) (nextHop r) x]\<rparr>
                         else e1)
           in cleanRoutes env rs e2))"

definition cleanIt ::
  "'s winipcfg \<Rightarrow> luidRouteData list \<Rightarrow> 's \<Rightarrow> luidRouteData list \<times> 's effects" where
  "cleanIt env ourRoutes0 s =
     ([], cleanRoutes env ourRoutes0 \<lparr>os = s, calls = [], logs = []\<rparr>)"

definition monitorProxyRoutes_routeChangeCallback ::
  "'s winipcfg \<Rightarrow> AddressFamily \<Rightarrow> LUID \<Rightarrow> destProxyMap \<Rightarrow> MibNotificationType \<Rightarrow>
   MibIPforwardRow2 option \<Rightarrow> luidRouteData list \<Rightarrow> 's \<Rightarrow> luidRouteData list \<times> 's effects" where
  "monitorProxyRoutes_routeChangeCallback env family ourLUID destProxy notificationType route
      ourRoutes0 s =
     (case route of
        None \<Rightarrow> (ourRoutes0, \<lparr>os = s, calls = [], logs = []\<rparr>)
      | Some r \<Rightarrow>
          if PrefixLength r = 0
          then (case monitorProxyRoutes_doIt env family ourLUID destProxy True ourRoutes0 s of
                  (err, ourRoutes', e) \<Rightarrow> (ourRoutes', e))
          else (ourRoutes0, \<lparr>os = s, calls = [], logs = []\<rparr>))"

definition monitorProxyRoutes_interfaceChangeCallback ::
  "'s winipcfg \<Rightarrow> AddressFamily \<Rightarrow> LUID \<Rightarrow> destProxyMap \<Rightarrow> MibNotificationType \<Rightarrow>
   MibIPInterfaceRow option \<Rightarrow> luidRouteData list \<Rightarrow> 's \<Rightarrow> luidRouteData list \<times> 's effects" where
  "monitorProxyRoutes_interfaceChangeCallback env family ourLUID destProxy notificationType iface
      ourRoutes0 s =
     (if notificationType = MibParameterNotification
      then (case monitorProxyRoutes_doIt env family ourLUID destProxy True ourRoutes0 s of
              (err, ourRoutes', e) \<Rightarrow> (ourRoutes', e))
      else (ourRoutes0, \<lparr>os = s, calls = [], logs = []\<rparr>))"

text \<open>One operation after another: the effects of both, in order.\<close>

definition andThen :: "'s effects \<Rightarrow> 's effects \<Rightarrow> 's effects" where
  "andThen e1 e2 = \<lparr>os = os e2, calls = calls e1 @ calls e2, logs = logs e1 @ logs e2\<rparr>"

text \<open>
  \<open>monitorProxyRoutes\<close>: the destinations, the first pass, the two registrations.
  It returns the callbacks or the error, with \<^verbatim>\<open>ourRoutes\<close> as it leaves it and the
  effects of what it did. The closure \<^verbatim>\<open>cleanIt\<close> that the source hands to both
  registrations is kept by the notifier for later; the calls made here are the
  ones written in the function.
\<close>

definition monitorProxyRoutes ::
  "'s winipcfg \<Rightarrow> AddressFamily \<Rightarrow> LUID \<Rightarrow> proxy list \<Rightarrow> 's \<Rightarrow>
   (error + ChangeCallback list) \<times> luidRouteData list \<times> 's effects" where
  "monitorProxyRoutes env family ourLUID proxies s =
     (let destProxy = buildDestProxy family proxies in
      case monitorProxyRoutes_doIt env family ourLUID destProxy False [] s of
        (Some err, ourRoutes1, e) \<Rightarrow> (Inl err, ourRoutes1, e)
      | (None, ourRoutes1, e) \<Rightarrow>
          (case RegisterRouteChangeCallback env of
             Inl err \<Rightarrow>
               (case cleanIt env ourRoutes1 (os e) of
                  (ourRoutes2, e2) \<Rightarrow> (Inl err, ourRoutes2, andThen e e2))
           | Inr cbr \<Rightarrow>
               (case RegisterInterfaceChangeCallback env of
                  Inl err \<Rightarrow>
                    (case Unregister env (os e) cbr of
                       (uerr, s') \<Rightarrow>
                         (case cleanIt env ourRoutes1 s' of
                            (ourRoutes2, e2) \<Rightarrow>
                              (Inl err, ourRoutes2,
                               andThen (e\<lparr>os := s', calls := calls e @ [(CallUnregister cbr, uerr)]\<rparr>)
                                 e2)))
                | Inr cbi \<Rightarrow> (Inr [cbr, cbi], ourRoutes1, e))))"

subsection \<open>The life of the monitor\<close>

text \<open>
  What happens to \<^verbatim>\<open>ourRoutes\<close> after \<open>monitorProxyRoutes\<close> has returned: the
  notifier calls one of the two callbacks, or the closure \<^verbatim>\<open>cleanIt\<close> it was given
  for the teardown. Each event comes with the operating system as it behaves at
  that time.
\<close>

datatype 's event =
    RouteChange "'s winipcfg" MibNotificationType "MibIPforwardRow2 option"
  | InterfaceChange "'s winipcfg" MibNotificationType "MibIPInterfaceRow option"
  | Teardown "'s winipcfg"

fun monitorProxyRoutes_event ::
  "AddressFamily \<Rightarrow> LUID \<Rightarrow> destProxyMap \<Rightarrow> 's event \<Rightarrow> luidRouteData list \<times> 's \<Rightarrow>
   luidRouteData list \<times> 's" where
  "monitorProxyRoutes_event family ourLUID destProxy (RouteChange env n route) (ourRoutes0, s) =
     (case monitorProxyRoutes_routeChangeCallback env family ourLUID destProxy n route ourRoutes0 s of
        (ourRoutes', e) \<Rightarrow> (ourRoutes', os e))"
| "monitorProxyRoutes_event family ourLUID destProxy (InterfaceChange env n iface) (ourRoutes0, s) =
     (case monitorProxyRoutes_interfaceChangeCallback env family ourLUID destProxy n iface
             ourRoutes0 s of
        (ourRoutes', e) \<Rightarrow> (ourRoutes', os e))"
| "monitorProxyRoutes_event family ourLUID destProxy (Teardown env) (ourRoutes0, s) =
     (case cleanIt env ourRoutes0 s of (ourRoutes', e) \<Rightarrow> (ourRoutes', os e))"

definition monitorProxyRoutes_events ::
  "AddressFamily \<Rightarrow> LUID \<Rightarrow> proxy list \<Rightarrow> 's event list \<Rightarrow> luidRouteData list \<times> 's \<Rightarrow>
   luidRouteData list \<times> 's" where
  "monitorProxyRoutes_events family ourLUID proxies events st =
     fold (monitorProxyRoutes_event family ourLUID (buildDestProxy family proxies)) events st"

section \<open>spawnProxies, the variant that returns the addresses\<close>

text \<open>
  The second part of \<^verbatim>\<open>tunnel/mtumonitor.go\<close> holds a variant of \<^verbatim>\<open>proxy.go\<close> whose
  \<^verbatim>\<open>spawnProxies\<close> returns the resolved addresses, of type \<^verbatim>\<open>[]netip.Addr\<close>. What
  it asks of the outside is taken as a parameter: the parse of the endpoint (the
  host name of the URL, or an error), the resolver, the parse of an address, and
  what arrives on the channel \<^verbatim>\<open>proxyReady\<close> once the proxy of a peer is started
  (\<open>Some None\<close> for \<^verbatim>\<open>nil\<close>, \<open>Some (Some err)\<close> for an error, \<open>None\<close> when nothing ever
  arrives and the receive blocks for ever).
\<close>

record Peer =
  ProxyEndpoint :: string
  Endpoint :: string

record resolver =
  url_Parse :: "string \<Rightarrow> error + string"
  LookupHost :: "string \<Rightarrow> error + string list"
  ParseAddr :: "string \<Rightarrow> error + Addr"
  proxyReady :: "Peer \<Rightarrow> string list \<Rightarrow> error option option"

text \<open>The loop over \<^verbatim>\<open>pips\<close>; the map \<^verbatim>\<open>m\<close> is a list without repetition.\<close>

fun parseAddrs :: "resolver \<Rightarrow> string list \<Rightarrow> Addr list \<Rightarrow> error + Addr list" where
  "parseAddrs env [] m = Inr m"
| "parseAddrs env (ip # ips) m =
     (case ParseAddr env ip of
        Inl err \<Rightarrow> Inl err
      | Inr addr \<Rightarrow>
          if addr \<in> set m then parseAddrs env ips m else parseAddrs env ips (m @ [addr]))"

text \<open>The loop over \<^verbatim>\<open>conf.Peers\<close>. \<open>None\<close>: the function never returns.\<close>

fun spawnPeers :: "resolver \<Rightarrow> Peer list \<Rightarrow> Addr list \<Rightarrow> (error + Addr list) option" where
  "spawnPeers env [] m = Some (Inr m)"
| "spawnPeers env (peer # peers) m =
     (if length (ProxyEndpoint peer) > 0
      then (case url_Parse env (ProxyEndpoint peer) of
              Inl err \<Rightarrow> Some (Inl err)
            | Inr hostname \<Rightarrow>
                (case LookupHost env hostname of
                   Inl err \<Rightarrow> Some (Inl err)
                 | Inr pips \<Rightarrow>
                     (case parseAddrs env pips m of
                        Inl err \<Rightarrow> Some (Inl err)
                      | Inr m' \<Rightarrow>
                          (case proxyReady env peer pips of
                             None \<Rightarrow> None
                           | Some (Some err) \<Rightarrow> Some (Inl err)
                           | Some None \<Rightarrow> spawnPeers env peers m'))))
      else spawnPeers env peers m)"

text \<open>
  \<^verbatim>\<open>make([]netip.Addr, len(m))\<close> is a slice of \<^verbatim>\<open>len(m)\<close> zero values; the loop over
  \<^verbatim>\<open>m\<close> appends to it.
\<close>

definition spawnProxies :: "resolver \<Rightarrow> Peer list \<Rightarrow> (error + Addr list) option" where
  "spawnProxies env peers =
     (case spawnPeers env peers [] of
        None \<Rightarrow> None
      | Some (Inl err) \<Rightarrow> Some (Inl err)
      | Some (Inr m) \<Rightarrow>
          Some (Inr (fold (\<lambda>addr proxies. proxies @ [addr]) m (replicate (length m) AddrZero))))"

section \<open>Notions of the claims\<close>

subsection \<open>Default routes and the selector\<close>

text \<open>
  An up foreign default route of a snapshot: a row with a destination prefix of
  length zero, on an interface that is not the tunnel's own, whose interface row can
  be read and says the interface is up.
\<close>

definition foreignDefaultRoute :: "'s winipcfg \<Rightarrow> LUID \<Rightarrow> MibIPforwardRow2 \<Rightarrow> bool" where
  "foreignDefaultRoute env ourLUID r =
     (PrefixLength r = 0 \<and> InterfaceLUID r \<noteq> ourLUID \<and>
      (case Interface env (InterfaceLUID r) of
         Inl err \<Rightarrow> False
       | Inr ifrow \<Rightarrow> OperStatus ifrow = IfOperStatusUp))"

text \<open>The per-family row of the interface of a route can be read.\<close>

definition readable :: "'s winipcfg \<Rightarrow> AddressFamily \<Rightarrow> MibIPforwardRow2 \<Rightarrow> bool" where
  "readable env family r =
     (case IPInterface env (InterfaceLUID r) family of Inl err \<Rightarrow> False | Inr iface \<Rightarrow> True)"

text \<open>
  The combined metric of a route, as the code adds it: the metric of the route plus
  the metric of its interface, modulo \<open>2^32\<close>.
\<close>

definition combinedMetric :: "'s winipcfg \<Rightarrow> AddressFamily \<Rightarrow> MibIPforwardRow2 \<Rightarrow> 32 word" where
  "combinedMetric env family r =
     (case IPInterface env (InterfaceLUID r) family of
        Inl err \<Rightarrow> Metric r
      | Inr iface \<Rightarrow> Metric r + InterfaceMetric iface)"

text \<open>
  The candidates of the selector, in the order of the snapshot: the up foreign
  default routes whose per-family interface row can be read.
\<close>

definition candidates ::
  "'s winipcfg \<Rightarrow> AddressFamily \<Rightarrow> LUID \<Rightarrow> MibIPforwardRow2 list \<Rightarrow> MibIPforwardRow2 list" where
  "candidates env family ourLUID rs =
     filter (\<lambda>r. foreignDefaultRoute env ourLUID r \<and> readable env family r) rs"

text \<open>One step of the selector: the variables of the closure after the row \<open>r\<close>.\<close>

definition pick :: "'s winipcfg \<Rightarrow> AddressFamily \<Rightarrow> MibIPforwardRow2 \<Rightarrow>
   32 word \<times> 32 word \<times> LUID \<Rightarrow> 32 word \<times> 32 word \<times> LUID" where
  "pick env family r acc = snd (findDefaultLUID_callback env family r acc)"

subsection \<open>Bypass routes\<close>

text \<open>
  An address of the monitor's family, as \<open>monitorProxyRoutes\<close> filters them: an
  IPv4 address for \<open>AF_INET\<close>, an IPv6 address for \<open>AF_INET6\<close>.
\<close>

definition ofFamily :: "AddressFamily \<Rightarrow> Addr \<Rightarrow> bool" where
  "ofFamily family a =
     ((if family = AF_INET then Is4 a else True) \<and> (if family = AF_INET6 then Is6 a else True))"

text \<open>The resolved proxy destination addresses of the monitor's family.\<close>

definition proxyAddresses :: "AddressFamily \<Rightarrow> proxy list \<Rightarrow> Addr list" where
  "proxyAddresses family proxies = filter (ofFamily family) (concat (map Addresses proxies))"

text \<open>The host prefix of an address: the address with its full length.\<close>

definition hostPrefix :: "Addr \<Rightarrow> Prefix" where
  "hostPrefix a = PrefixFrom a (BitLen a)"

text \<open>The key of the bypass route to \<open>d\<close> over the interface and next hop of the row \<open>r\<close>.\<close>

definition routeKey :: "MibIPforwardRow2 \<Rightarrow> Prefix \<Rightarrow> luidRouteData" where
  "routeKey r d = \<lparr>luid = InterfaceLUID r, destination = d, nextHop = NextHop r\<rparr>"

text \<open>
  The routes that pairing the rows \<open>rs\<close> with the destinations \<open>ds\<close> gives, row by
  row.
\<close>

definition pairRoutes :: "MibIPforwardRow2 list \<Rightarrow> Prefix list \<Rightarrow> luidRouteData list" where
  "pairRoutes rs ds = concat (map (\<lambda>r. map (routeKey r) ds) rs)"

text \<open>The call that adds the route \<open>k\<close> (with the metric 0), and the call that deletes it.\<close>

definition addCall :: "luidRouteData \<Rightarrow> call" where
  "addCall k = CallAddRoute (luid k) (destination k) (nextHop k) 0"

definition deleteCall :: "luidRouteData \<Rightarrow> call" where
  "deleteCall k = CallDeleteRoute (luid k) (destination k) (nextHop k)"

fun isAddRoute :: "call \<Rightarrow> bool" where
  "isAddRoute (CallAddRoute l d h m) = True"
| "isAddRoute c = False"


text \<open>The route an add call is for.\<close>

fun addRouteOf :: "call \<Rightarrow> luidRouteData option" where
  "addRouteOf (CallAddRoute l d h m) = Some \<lparr>luid = l, destination = d, nextHop = h\<rparr>"
| "addRouteOf c = None"

text \<open>
  An add that succeeded or reported that the route exists: the route it is for.
  \<open>keptRoutes\<close> are the routes of such adds in a trace.
\<close>

definition addedRoute :: "call \<times> error option \<Rightarrow> luidRouteData option" where
  "addedRoute c =
     (if snd c = None \<or> snd c = Some ERROR_OBJECT_ALREADY_EXISTS
      then addRouteOf (fst c) else None)"

definition keptRoutes :: "(call \<times> error option) list \<Rightarrow> luidRouteData set" where
  "keptRoutes tr = set (List.map_filter addedRoute tr)"

text \<open>Every add of a trace succeeded or reported that the route exists.\<close>

definition addsAccepted :: "(call \<times> error option) list \<Rightarrow> bool" where
  "addsAccepted tr =
     list_all (\<lambda>c. if isAddRoute (fst c)
                    then snd c = None \<or> snd c = Some ERROR_OBJECT_ALREADY_EXISTS else True) tr"

text \<open>
  The line a pass logs for an entry of its trace, if any: one for an add that
  failed otherwise than with already-exists, one for a delete that failed otherwise
  than with not-found. \<open>loggedLines\<close> are the lines of a trace, in order.
\<close>

fun loggedFor :: "call \<times> error option \<Rightarrow> logline option" where
  "loggedFor (CallAddRoute l d h m, Some e) =
     (if e = ERROR_OBJECT_ALREADY_EXISTS then None else Some (FailedToAddRoute d h e))"
| "loggedFor (CallDeleteRoute l d h, Some e) =
     (if e = ERROR_NOT_FOUND then None else Some (FailedToDeleteRoute d h e))"
| "loggedFor (c, res) = None"

definition loggedLines :: "(call \<times> error option) list \<Rightarrow> logline list" where
  "loggedLines tr = List.map_filter loggedFor tr"

text \<open>
  The invariant of the tracked set: the destination of every tracked route is the
  host prefix, of full length, of one of the proxy addresses of the monitor's
  family.
\<close>

definition tracksProxies :: "AddressFamily \<Rightarrow> proxy list \<Rightarrow> luidRouteData list \<Rightarrow> bool" where
  "tracksProxies family proxies R =
     list_all (\<lambda>k. \<exists>a\<in>set (proxyAddresses family proxies).
                      destination k = PrefixFrom a (BitLen a)) R"

subsection \<open>spawnProxies\<close>

text \<open>
  The addresses a peer resolves to: those of the lookup of its proxy endpoint that
  parse; none for a peer without a proxy endpoint. \<open>resolvedAddresses\<close> is the set
  of the addresses the peers resolve to.
\<close>

definition resolved :: "resolver \<Rightarrow> Peer \<Rightarrow> Addr list" where
  "resolved env peer =
     (if ProxyEndpoint peer = [] then []
      else case url_Parse env (ProxyEndpoint peer) of
          Inl err \<Rightarrow> []
        | Inr hostname \<Rightarrow>
            (case LookupHost env hostname of
               Inl err \<Rightarrow> []
             | Inr pips \<Rightarrow>
                 List.map_filter
                   (\<lambda>ip. case ParseAddr env ip of Inl err \<Rightarrow> None | Inr addr \<Rightarrow> Some addr) pips))"

definition resolvedAddresses :: "resolver \<Rightarrow> Peer list \<Rightarrow> Addr set" where
  "resolvedAddresses env peers = set (concat (map (resolved env) peers))"

text \<open>
  A peer starts: it has no proxy endpoint, or its endpoint parses, its host
  resolves, every address of the lookup parses and its proxy reports ready.
\<close>

definition peerStarts :: "resolver \<Rightarrow> Peer \<Rightarrow> bool" where
  "peerStarts env peer =
     (if ProxyEndpoint peer = [] then True
      else case url_Parse env (ProxyEndpoint peer) of
          Inl err \<Rightarrow> False
        | Inr hostname \<Rightarrow>
            (case LookupHost env hostname of
               Inl err \<Rightarrow> False
             | Inr pips \<Rightarrow>
                 list_all (\<lambda>ip. case ParseAddr env ip of Inl err \<Rightarrow> False | Inr addr \<Rightarrow> True) pips \<and>
                 proxyReady env peer pips = Some None))"

section \<open>Example systems\<close>

text \<open>
  A route table that holds a set of routes: adding a route it holds reports
  \<open>ERROR_OBJECT_ALREADY_EXISTS\<close>, deleting one it does not hold reports
  \<open>ERROR_NOT_FOUND\<close>. These are the two outcomes the monitors single out. It is the
  operating system of the examples; the theorems on the passes hold for every
  operating system.
\<close>

definition routeTable_add ::
  "luidRouteData list \<Rightarrow> LUID \<Rightarrow> Prefix \<Rightarrow> Addr \<Rightarrow> 32 word \<Rightarrow> error option \<times> luidRouteData list" where
  "routeTable_add t l d h m =
     (if \<lparr>luid = l, destination = d, nextHop = h\<rparr> \<in> set t
      then (Some ERROR_OBJECT_ALREADY_EXISTS, t)
      else (None, t @ [\<lparr>luid = l, destination = d, nextHop = h\<rparr>]))"

definition routeTable_delete ::
  "luidRouteData list \<Rightarrow> LUID \<Rightarrow> Prefix \<Rightarrow> Addr \<Rightarrow> error option \<times> luidRouteData list" where
  "routeTable_delete t l d h =
     (if \<lparr>luid = l, destination = d, nextHop = h\<rparr> \<in> set t
      then (None, removeAll \<lparr>luid = l, destination = d, nextHop = h\<rparr> t)
      else (Some ERROR_NOT_FOUND, t))"

text \<open>
  An operating system with the forwarding table \<open>rows\<close>, every interface up with
  the physical MTU \<open>mtu\<close> and the interface metric \<open>ifMetric\<close>, and \<open>reg2\<close> as the
  result of the second registration.
\<close>

definition exampleOS ::
  "MibIPforwardRow2 list \<Rightarrow> 32 word \<Rightarrow> 32 word \<Rightarrow> error + ChangeCallback \<Rightarrow>
   luidRouteData list winipcfg" where
  "exampleOS rows ifMetric mtu reg2 =
     \<lparr>GetIPForwardTable2 = (\<lambda>family. Inr rows),
      Interface = (\<lambda>l. Inr \<lparr>OperStatus = IfOperStatusUp, MTU = mtu\<rparr>),
      IPInterface = (\<lambda>l family. Inr \<lparr>InterfaceMetric = ifMetric, NLMTU = 1500\<rparr>),
      AddRoute = routeTable_add,
      DeleteRoute = routeTable_delete,
      IPInterface_Set = (\<lambda>s l family row. (None, s)),
      RegisterRouteChangeCallback = Inr 1,
      RegisterInterfaceChangeCallback = reg2,
      Unregister = (\<lambda>s cb. (None, s))\<rparr>"

text \<open>A default route over the interface 5, with next hop 10.0.0.1 and the metric \<open>m\<close>.\<close>

definition exampleRow :: "32 word \<Rightarrow> MibIPforwardRow2" where
  "exampleRow m =
     \<lparr>InterfaceLUID = 5, InterfaceIndex = 7, PrefixLength = 0,
      NextHop = Addr4 167772161, Metric = m\<rparr>"

text \<open>A default route over the interface 6, with next hop 10.0.1.1 and the metric \<open>m\<close>.\<close>

definition exampleRow2 :: "32 word \<Rightarrow> MibIPforwardRow2" where
  "exampleRow2 m =
     \<lparr>InterfaceLUID = 6, InterfaceIndex = 8, PrefixLength = 0,
      NextHop = Addr4 167772417, Metric = m\<rparr>"

text \<open>An operating system whose forwarding table cannot be read.\<close>

definition brokenOS :: "luidRouteData list winipcfg" where
  "brokenOS =
     \<lparr>GetIPForwardTable2 = (\<lambda>family. Inl (ERROR_OTHER 5)),
      Interface = (\<lambda>l. Inl (ERROR_OTHER 5)),
      IPInterface = (\<lambda>l family. Inl (ERROR_OTHER 5)),
      AddRoute = routeTable_add,
      DeleteRoute = routeTable_delete,
      IPInterface_Set = (\<lambda>s l family row. (None, s)),
      RegisterRouteChangeCallback = Inr 1,
      RegisterInterfaceChangeCallback = Inr 2,
      Unregister = (\<lambda>s cb. (None, s))\<rparr>"

text \<open>
  An operating system that refuses every add and every delete of a route, and
  every write of an interface row.
\<close>

definition refusingOS :: "MibIPforwardRow2 list \<Rightarrow> luidRouteData list winipcfg" where
  "refusingOS rows =
     \<lparr>GetIPForwardTable2 = (\<lambda>family. Inr rows),
      Interface = (\<lambda>l. Inr \<lparr>OperStatus = IfOperStatusUp, MTU = 1500\<rparr>),
      IPInterface = (\<lambda>l family. Inr \<lparr>InterfaceMetric = 25, NLMTU = 1500\<rparr>),
      AddRoute = (\<lambda>s l d h m. (Some (ERROR_OTHER 5), s)),
      DeleteRoute = (\<lambda>s l d h. (Some (ERROR_OTHER 6), s)),
      IPInterface_Set = (\<lambda>s l family row. (Some (ERROR_OTHER 7), s)),
      RegisterRouteChangeCallback = Inr 1,
      RegisterInterfaceChangeCallback = Inr 2,
      Unregister = (\<lambda>s cb. (None, s))\<rparr>"

text \<open>One proxy, resolved to 192.168.1.1 and to ::1.\<close>

definition exampleProxies :: "proxy list" where
  "exampleProxies =
     [\<lparr>Listen = ''127.0.0.1:51820'', Addresses = [Addr4 3232235777, Addr6 1 []]\<rparr>]"

text \<open>The bypass route of the examples: to 192.168.1.1 over the interface 5.\<close>

definition exampleRoute :: luidRouteData where
  "exampleRoute =
     \<lparr>luid = 5, destination = \<lparr>Prefix_Addr = Addr4 3232235777, Prefix_Bits = 32\<rparr>,
      nextHop = Addr4 167772161\<rparr>"

text \<open>
  A resolver for the examples: every endpoint parses, the host resolves to
  \<^verbatim>\<open>192.168.1.1\<close>, \<^verbatim>\<open>::1\<close> and \<^verbatim>\<open>192.168.1.1\<close> again, and the proxy reports ready.
  Two peers, the second without a proxy endpoint.
\<close>

definition exampleResolver :: resolver where
  "exampleResolver =
     \<lparr>url_Parse = (\<lambda>u. Inr ''proxy.example.org''),
      LookupHost = (\<lambda>h. Inr [''192.168.1.1'', ''::1'', ''192.168.1.1'']),
      ParseAddr = (\<lambda>ip. if ip = ''::1'' then Inr (Addr6 1 []) else Inr (Addr4 3232235777)),
      proxyReady = (\<lambda>peer pips. Some None)\<rparr>"

definition examplePeers :: "Peer list" where
  "examplePeers =
     [\<lparr>ProxyEndpoint = ''https://proxy.example.org/'', Endpoint = ''127.0.0.1:51820''\<rparr>,
      \<lparr>ProxyEndpoint = [], Endpoint = ''203.0.113.5:51820''\<rparr>]"

section \<open>The iteration over the foreign default routes\<close>

text \<open>
  With a callback that returns no error, the iteration is a fold of the callback
  over the up foreign default routes of the table, in the order of the table.
\<close>

lemma iterateRows_skip:
  "\<not> foreignDefaultRoute env ourLUID r \<Longrightarrow>
   iterateRows env ourLUID callback (r # rs) acc = iterateRows env ourLUID callback rs acc"
  by (cases "Interface env (InterfaceLUID r)") (auto simp: foreignDefaultRoute_def)

lemma iterateRows_visit:
  "foreignDefaultRoute env ourLUID r \<Longrightarrow>
   iterateRows env ourLUID callback (r # rs) acc =
     (case callback r acc of
        (Some err, acc') \<Rightarrow> (Some err, acc')
      | (None, acc') \<Rightarrow> iterateRows env ourLUID callback rs acc')"
  by (cases "Interface env (InterfaceLUID r)") (auto simp: foreignDefaultRoute_def)

lemma iterateRows_fold:
  assumes "\<And>r a. fst (callback r a) = None"
  shows "iterateRows env ourLUID callback rs acc =
         (None, fold (\<lambda>r a. snd (callback r a)) (filter (foreignDefaultRoute env ourLUID) rs) acc)"
proof (induction rs arbitrary: acc)
  case Nil
  show ?case by simp
next
  case (Cons r rs)
  have cb: "callback r acc = (None, snd (callback r acc))"
    using assms [of r acc] by (cases "callback r acc") simp
  show ?case
  proof (cases "foreignDefaultRoute env ourLUID r")
    case True
    have "iterateRows env ourLUID callback (r # rs) acc =
          iterateRows env ourLUID callback rs (snd (callback r acc))"
      by (subst iterateRows_visit [OF True], subst cb) simp
    with True Cons.IH show ?thesis by simp
  next
    case False
    with Cons.IH show ?thesis by (simp add: iterateRows_skip del: iterateRows.simps)
  qed
qed

section \<open>The default-route selector\<close>

lemma fold_pick_skip:
  "fold (pick env family) (filter (foreignDefaultRoute env ourLUID) rs) acc =
   fold (pick env family) (candidates env family ourLUID rs) acc"
proof (induction rs arbitrary: acc)
  case Nil
  show ?case by (simp add: candidates_def)
next
  case (Cons r rs)
  then show ?case
    by (auto simp: candidates_def pick_def findDefaultLUID_callback_def readable_def
        split: sum.splits prod.splits)
qed

lemma fold_pick_candidates:
  assumes "\<forall>r\<in>set cs. readable env family r"
  shows "(fold (pick env family) cs (m, i, l) = (m, i, l) \<and>
            (\<forall>r\<in>set cs. m \<le> combinedMetric env family r)) \<or>
         (\<exists>pre r post. cs = pre @ r # post \<and>
            combinedMetric env family r < m \<and>
            (\<forall>y\<in>set pre. combinedMetric env family r < combinedMetric env family y) \<and>
            (\<forall>y\<in>set post. combinedMetric env family r \<le> combinedMetric env family y) \<and>
            fold (pick env family) cs (m, i, l) =
              (combinedMetric env family r, InterfaceIndex r, InterfaceLUID r))"
  using assms
proof (induction cs arbitrary: m i l)
  case Nil
  show ?case by simp
next
  case (Cons c cs)
  let ?f = "combinedMetric env family"
  from Cons.prems have rc: "readable env family c" and rcs: "\<forall>r\<in>set cs. readable env family r"
    by simp_all
  show ?case
  proof (cases "?f c < m")
    case True
    then have step: "pick env family c (m, i, l) = (?f c, InterfaceIndex c, InterfaceLUID c)"
      using rc by (simp add: pick_def findDefaultLUID_callback_def combinedMetric_def readable_def
          split: sum.splits)
    from Cons.IH [OF rcs, of "?f c" "InterfaceIndex c" "InterfaceLUID c"]
    show ?thesis
    proof (elim disjE exE conjE)
      assume a: "fold (pick env family) cs (?f c, InterfaceIndex c, InterfaceLUID c) =
                 (?f c, InterfaceIndex c, InterfaceLUID c)"
        and b: "\<forall>r\<in>set cs. ?f c \<le> ?f r"
      have "c # cs = [] @ c # cs" by simp
      with a b True step show ?thesis
        by (intro disjI2 exI [of _ "[]"] exI [of _ c] exI [of _ cs]) simp
    next
      fix pre r post
      assume a: "cs = pre @ r # post" and b: "?f r < ?f c"
        and c: "\<forall>y\<in>set pre. ?f r < ?f y" and d: "\<forall>y\<in>set post. ?f r \<le> ?f y"
        and e: "fold (pick env family) cs (?f c, InterfaceIndex c, InterfaceLUID c) =
                (?f r, InterfaceIndex r, InterfaceLUID r)"
      from b True have "?f r < m" by simp
      with a b c d e step show ?thesis
        by (intro disjI2 exI [of _ "c # pre"] exI [of _ r] exI [of _ post]) simp
    qed
  next
    case False
    then have step: "pick env family c (m, i, l) = (m, i, l)"
      using rc by (simp add: pick_def findDefaultLUID_callback_def combinedMetric_def readable_def
          split: sum.splits)
    from False have mc: "m \<le> ?f c" by simp
    from Cons.IH [OF rcs, of m i l]
    show ?thesis
    proof (elim disjE exE conjE)
      assume a: "fold (pick env family) cs (m, i, l) = (m, i, l)"
        and b: "\<forall>r\<in>set cs. m \<le> ?f r"
      with mc step show ?thesis by simp
    next
      fix pre r post
      assume a: "cs = pre @ r # post" and b: "?f r < m"
        and c: "\<forall>y\<in>set pre. ?f r < ?f y" and d: "\<forall>y\<in>set post. ?f r \<le> ?f y"
        and e: "fold (pick env family) cs (m, i, l) = (?f r, InterfaceIndex r, InterfaceLUID r)"
      from b mc have "?f r < ?f c" by simp
      with a b c d e step show ?thesis
        by (intro disjI2 exI [of _ "c # pre"] exI [of _ r] exI [of _ post]) simp
    qed
  qed
qed

lemma findDefaultLUID_fold:
  assumes "GetIPForwardTable2 env family = Inr rs"
  shows "findDefaultLUID env family ourLUID lastLUID0 lastIndex0 =
         (case fold (pick env family) (candidates env family ourLUID rs) (NOT 0, 0, 0) of
            (lowestMetric, index, l) \<Rightarrow> (None, (l, index)))"
proof -
  have "iterateRows env ourLUID (findDefaultLUID_callback env family) rs (NOT 0, 0, 0) =
        (None, fold (pick env family) (candidates env family ourLUID rs) (NOT 0, 0, 0))"
    unfolding fold_pick_skip [symmetric] pick_def
    by (rule iterateRows_fold)
       (simp add: findDefaultLUID_callback_def split: sum.splits prod.splits)
  then show ?thesis
    using assms
    by (auto simp: findDefaultLUID_def iterateForeignDefaultRoutes_def split: prod.splits)
qed

text \<open>
  Away from the two edges of the \<^verbatim>\<open>uint32\<close> arithmetic the selector does what its
  contract says: when no candidate has the combined metric \<open>2^32 - 1\<close> (the sum taken
  as the code takes it, modulo \<open>2^32\<close>), the selection is none (LUID 0) if there is no
  candidate, and otherwise the candidate with the least combined metric, the first
  one in the order of the snapshot among equals.
\<close>

lemma findDefaultLUID_selects_first_minimum:
  assumes tbl: "GetIPForwardTable2 env family = Inr rs"
    and below: "\<forall>r\<in>set (candidates env family ourLUID rs). combinedMetric env family r \<noteq> NOT 0"
  shows "(candidates env family ourLUID rs = [] \<and>
            findDefaultLUID env family ourLUID lastLUID0 lastIndex0 = (None, (0, 0))) \<or>
         (\<exists>pre r post. candidates env family ourLUID rs = pre @ r # post \<and>
            (\<forall>y\<in>set pre. combinedMetric env family r < combinedMetric env family y) \<and>
            (\<forall>y\<in>set post. combinedMetric env family r \<le> combinedMetric env family y) \<and>
            findDefaultLUID env family ourLUID lastLUID0 lastIndex0 =
              (None, (InterfaceLUID r, InterfaceIndex r)))"
proof -
  let ?cs = "candidates env family ourLUID rs"
  have rd: "\<forall>r\<in>set ?cs. readable env family r"
    by (simp add: candidates_def)
  from fold_pick_candidates [OF rd, of "NOT 0" 0 0]
  show ?thesis
  proof (elim disjE exE conjE)
    assume a: "fold (pick env family) ?cs (NOT 0, 0, 0) = (NOT 0, 0, 0)"
      and b: "\<forall>r\<in>set ?cs. NOT 0 \<le> combinedMetric env family r"
    have "?cs = []"
    proof (cases ?cs)
      case Nil
      then show ?thesis .
    next
      case (Cons c cs')
      then have "c \<in> set ?cs" by simp
      with b below have "NOT 0 \<le> combinedMetric env family c" "combinedMetric env family c \<noteq> NOT 0"
        by blast+
      then show ?thesis by (simp add: word_order.extremum_unique)
    qed
    with a show ?thesis
      by (simp add: findDefaultLUID_fold [OF tbl])
  next
    fix pre r post
    assume "?cs = pre @ r # post"
      "\<forall>y\<in>set pre. combinedMetric env family r < combinedMetric env family y"
      "\<forall>y\<in>set post. combinedMetric env family r \<le> combinedMetric env family y"
      "fold (pick env family) ?cs (NOT 0, 0, 0) =
         (combinedMetric env family r, InterfaceIndex r, InterfaceLUID r)"
    then show ?thesis
      by (intro disjI2 exI [of _ pre] exI [of _ r] exI [of _ post])
         (simp add: findDefaultLUID_fold [OF tbl])
  qed
qed

lemmas example_simps =
  monitorMTU_doIt_def findDefaultLUID_def iterateForeignDefaultRoutes_def
  findDefaultLUID_callback_def exampleOS_def exampleRow_def brokenOS_def mtuVars_init_def
  minMTU_def AF_INET_def AF_INET6_def

text \<open>
  C7. Claimed: the selector returns the candidate with minimum (route metric +
  interface metric) among the up foreign default routes whose per-family interface
  row is readable, and none (LUID 0) only if no candidate qualifies. The code starts
  from \<^verbatim>\<open>lowestMetric = ^uint32(0)\<close> and takes a candidate only when its combined
  metric is strictly below: a snapshot whose only candidate has the route metric
  \<open>2^32 - 1\<close> and the interface metric 0 selects nothing, and \<^verbatim>\<open>lastLUID\<close> becomes 0.
  The sum itself is a \<^verbatim>\<open>uint32\<close> sum: of a candidate with the metrics \<open>2^32 - 1\<close> and
  2 and a candidate with the metrics 3 and 2, the first is selected.
\<close>

theorem findDefaultLUID_misses_max_metric:
  "candidates (exampleOS [exampleRow 4294967295] 0 1500 (Inr 2)) AF_INET 1
     [exampleRow 4294967295] = [exampleRow 4294967295] \<and>
   findDefaultLUID (exampleOS [exampleRow 4294967295] 0 1500 (Inr 2)) AF_INET 1 0 (NOT 0) =
     (None, (0, 0)) \<and>
   candidates (exampleOS [exampleRow 4294967295, exampleRow2 3] 2 1500 (Inr 2)) AF_INET 1
     [exampleRow 4294967295, exampleRow2 3] = [exampleRow 4294967295, exampleRow2 3] \<and>
   findDefaultLUID (exampleOS [exampleRow 4294967295, exampleRow2 3] 2 1500 (Inr 2)) AF_INET 1
     0 (NOT 0) = (None, (5, 7))"
  by (simp add: example_simps exampleRow2_def candidates_def foreignDefaultRoute_def readable_def)

section \<open>The MTU pass\<close>

text \<open>
  C3, as the claim states it, fails: the pass compares the physical MTU with
  \<^verbatim>\<open>lastMTU\<close>, which holds the physical MTU of the last successful write, not the
  value written. On IPv4, after a pass with the physical MTU 500 wrote 576, a pass
  with the physical MTU 600 writes 576 again.
\<close>

theorem monitorMTU_doIt_rewrites_same_value:
  "monitorMTU_doIt (exampleOS [exampleRow 10] 25 500 (Inr 2)) AF_INET 1 mtuVars_init [] =
     (None, \<lparr>lastLUID = 5, lastIndex = 7, lastMTU = 500\<rparr>,
      \<lparr>os = [], calls = [(CallSet 1 AF_INET \<lparr>InterfaceMetric = 25, NLMTU = 576\<rparr>, None)],
       logs = []\<rparr>) \<and>
   monitorMTU_doIt (exampleOS [exampleRow 10] 25 600 (Inr 2)) AF_INET 1
       \<lparr>lastLUID = 5, lastIndex = 7, lastMTU = 500\<rparr> [] =
     (None, \<lparr>lastLUID = 5, lastIndex = 7, lastMTU = 600\<rparr>,
      \<lparr>os = [], calls = [(CallSet 1 AF_INET \<lparr>InterfaceMetric = 25, NLMTU = 576\<rparr>, None)],
       logs = []\<rparr>)"
  by (simp add: example_simps)

text \<open>
  C3, amended. In every MTU pass where a best default route is selected (its LUID
  \<open>l\<close> is not 0), the physical MTU of its interface is positive and the per-family
  row of the tunnel interface can be read, the tunnel interface's per-family MTU is
  written if and only if the physical MTU differs from \<^verbatim>\<open>lastMTU\<close>; and \<^verbatim>\<open>lastMTU\<close>
  becomes the physical MTU when the write succeeds and keeps its value otherwise (so
  it is the physical MTU of the last successful write, 0 before any).
\<close>

theorem monitorMTU_doIt_writes_iff_physical_MTU_changed:
  assumes "findDefaultLUID env family ourLUID (lastLUID v) (lastIndex v) = (None, (l, i))"
    and "l \<noteq> 0"
    and "Interface env l = Inr ifrow"
    and "0 < MTU ifrow"
    and "IPInterface env ourLUID family = Inr iface"
    and "monitorMTU_doIt env family ourLUID v s = (err, v', e)"
  shows "((\<exists>row res. (CallSet ourLUID family row, res) \<in> set (calls e)) \<longleftrightarrow>
            MTU ifrow \<noteq> lastMTU v) \<and>
         lastMTU v' =
           (if (\<exists>row. (CallSet ourLUID family row, None) \<in> set (calls e))
            then MTU ifrow else lastMTU v)"
  using assms
  by (auto simp: monitorMTU_doIt_def Let_def split: prod.splits option.splits if_splits)

theorem monitorMTU_doIt_writes_iff_physical_MTU_changed_witness:
  "findDefaultLUID (exampleOS [exampleRow 10] 25 600 (Inr 2)) AF_INET 1 5 7 = (None, (5, 7)) \<and>
   Interface (exampleOS [exampleRow 10] 25 600 (Inr 2)) 5 =
     Inr \<lparr>OperStatus = IfOperStatusUp, MTU = 600\<rparr> \<and>
   IPInterface (exampleOS [exampleRow 10] 25 600 (Inr 2)) 1 AF_INET =
     Inr \<lparr>InterfaceMetric = 25, NLMTU = 1500\<rparr> \<and>
   monitorMTU_doIt (exampleOS [exampleRow 10] 25 600 (Inr 2)) AF_INET 1
       \<lparr>lastLUID = 5, lastIndex = 7, lastMTU = 500\<rparr> [] =
     (None, \<lparr>lastLUID = 5, lastIndex = 7, lastMTU = 600\<rparr>,
      \<lparr>os = [], calls = [(CallSet 1 AF_INET \<lparr>InterfaceMetric = 25, NLMTU = 576\<rparr>, None)],
       logs = []\<rparr>) \<and>
   ((\<exists>row res. (CallSet 1 AF_INET row, res) \<in>
        set [(CallSet 1 AF_INET \<lparr>InterfaceMetric = 25, NLMTU = 576\<rparr>, None)]) \<longleftrightarrow>
      (600 :: 32 word) \<noteq> 500) \<and>
   (600 :: 32 word) =
     (if (\<exists>row. (CallSet 1 AF_INET row, None) \<in>
            set [(CallSet 1 AF_INET \<lparr>InterfaceMetric = 25, NLMTU = 576\<rparr>, None)])
      then 600 else 500)"
proof -
  let ?env = "exampleOS [exampleRow 10] 25 600 (Inr 2)"
  have h1: "findDefaultLUID ?env AF_INET 1 (lastLUID \<lparr>lastLUID = 5, lastIndex = 7, lastMTU = 500\<rparr>)
              (lastIndex \<lparr>lastLUID = 5, lastIndex = 7, lastMTU = 500\<rparr>) = (None, (5, 7))"
    by (simp add: example_simps)
  have h2: "(5 :: LUID) \<noteq> 0" by simp
  have h3: "Interface ?env 5 = Inr \<lparr>OperStatus = IfOperStatusUp, MTU = 600\<rparr>"
    by (simp add: exampleOS_def)
  have h4: "0 < MTU \<lparr>OperStatus = IfOperStatusUp, MTU = 600\<rparr>" by simp
  have h5: "IPInterface ?env 1 AF_INET = Inr \<lparr>InterfaceMetric = 25, NLMTU = 1500\<rparr>"
    by (simp add: exampleOS_def)
  have h6: "monitorMTU_doIt ?env AF_INET 1 \<lparr>lastLUID = 5, lastIndex = 7, lastMTU = 500\<rparr> [] =
     (None, \<lparr>lastLUID = 5, lastIndex = 7, lastMTU = 600\<rparr>,
      \<lparr>os = [], calls = [(CallSet 1 AF_INET \<lparr>InterfaceMetric = 25, NLMTU = 576\<rparr>, None)],
       logs = []\<rparr>)"
    by (simp add: example_simps)
  from monitorMTU_doIt_writes_iff_physical_MTU_changed [OF h1 h2 h3 h4 h5 h6] h1 h3 h5 h6
  show ?thesis by simp
qed

text \<open>
  The value written, for a physical MTU of at least 80: the physical MTU minus 80,
  floored to the minimum of the family.
\<close>

lemma monitorMTU_doIt_tunnel_MTU:
  assumes sel: "findDefaultLUID env family ourLUID (lastLUID v) (lastIndex v) = (None, (l, i))"
    and l: "l \<noteq> 0"
    and phys: "Interface env l = Inr ifrow" "80 \<le> MTU ifrow"
    and run: "monitorMTU_doIt env family ourLUID v s = (err, v', e)"
    and w: "(CallSet l' f row, res) \<in> set (calls e)"
  shows "NLMTU row = max (MTU ifrow - 80) (minMTU family) \<and>
         unat (NLMTU row) = max (unat (MTU ifrow) - 80) (unat (minMTU family))"
proof -
  have pos: "0 < MTU ifrow"
    using phys(2) by (auto simp: word_gt_0)
  have "NLMTU row = max (MTU ifrow - 80) (minMTU family)"
    using sel l phys(1) pos run w
    by (auto simp: monitorMTU_doIt_def Let_def max_def
        split: prod.splits option.splits if_splits sum.splits)
  moreover have "unat (MTU ifrow - 80) = unat (MTU ifrow) - 80"
    using phys(2) by (simp add: unat_sub)
  ultimately show ?thesis
    by (simp add: max_def word_le_nat_alt)
qed

text \<open>
  C4. Claimed: for every positive physical MTU \<open>p\<close> the value applied is
  \<open>max (p - 80) 576\<close> on IPv4, also when \<open>p\<close> is less than 80. The subtraction is a
  \<^verbatim>\<open>uint32\<close> subtraction: for the physical MTU 68 it wraps around to \<open>2^32 - 12\<close>,
  which is not below the minimum, and that is the value written.
\<close>

theorem monitorMTU_doIt_underflow:
  "monitorMTU_doIt (exampleOS [exampleRow 10] 25 68 (Inr 2)) AF_INET 1 mtuVars_init [] =
     (None, \<lparr>lastLUID = 5, lastIndex = 7, lastMTU = 68\<rparr>,
      \<lparr>os = [],
       calls = [(CallSet 1 AF_INET \<lparr>InterfaceMetric = 25, NLMTU = 4294967284\<rparr>, None)],
       logs = []\<rparr>)"
  by (simp add: example_simps)

section \<open>The reconciliation pass of the bypass routes\<close>

subsection \<open>The trace of a pass\<close>

lemma keptRoutes_Nil [simp]: "keptRoutes [] = {}"
  by (simp add: keptRoutes_def List.map_filter_simps)

lemma keptRoutes_append [simp]: "keptRoutes (xs @ ys) = keptRoutes xs \<union> keptRoutes ys"
  by (simp add: keptRoutes_def List.map_filter_def)

lemma keptRoutes_single:
  "keptRoutes [c] = (case addedRoute c of None \<Rightarrow> {} | Some k \<Rightarrow> {k})"
  by (simp add: keptRoutes_def List.map_filter_def split: option.splits)

lemma keptRoutes_subset: "keptRoutes tr \<subseteq> set (List.map_filter addRouteOf (map fst tr))"
  by (auto simp: keptRoutes_def List.map_filter_def addedRoute_def split: if_splits)

lemma loggedLines_Nil [simp]: "loggedLines [] = []"
  by (simp add: loggedLines_def List.map_filter_simps)

lemma loggedLines_append [simp]: "loggedLines (xs @ ys) = loggedLines xs @ loggedLines ys"
  by (simp add: loggedLines_def List.map_filter_def)

lemma loggedLines_single:
  "loggedLines [c] = (case loggedFor c of None \<Rightarrow> [] | Some k \<Rightarrow> [k])"
  by (simp add: loggedLines_def List.map_filter_def split: option.splits)

lemma addsAccepted_Nil [simp]: "addsAccepted []"
  by (simp add: addsAccepted_def)

lemma addsAccepted_append [simp]:
  "addsAccepted (xs @ ys) \<longleftrightarrow> addsAccepted xs \<and> addsAccepted ys"
  by (simp add: addsAccepted_def)

lemma addsAccepted_single [simp]:
  "addsAccepted [c] \<longleftrightarrow>
   (isAddRoute (fst c) \<longrightarrow> snd c = None \<or> snd c = Some ERROR_OBJECT_ALREADY_EXISTS)"
  by (simp add: addsAccepted_def)

lemma map_filter_append: "List.map_filter f (xs @ ys) = List.map_filter f xs @ List.map_filter f ys"
  by (simp add: List.map_filter_def)

lemma addRouteOf_addCalls [simp]: "List.map_filter addRouteOf (map addCall ks) = ks"
  by (induction ks) (simp_all add: List.map_filter_simps addCall_def)

lemma addRouteOf_deleteCalls [simp]: "List.map_filter addRouteOf (map deleteCall ks) = []"
  by (induction ks) (simp_all add: List.map_filter_simps deleteCall_def)

lemma keptRoutes_accepted:
  "addsAccepted tr \<Longrightarrow> keptRoutes tr = set (List.map_filter addRouteOf (map fst tr))"
proof (induction tr)
  case Nil
  show ?case by (simp add: List.map_filter_simps)
next
  case (Cons c tr)
  from Cons.prems have acc: "addsAccepted tr"
    by (simp add: addsAccepted_def)
  have one: "keptRoutes [c] = set (List.map_filter addRouteOf [fst c])"
  proof (cases "isAddRoute (fst c)")
    case True
    with Cons.prems have "snd c = None \<or> snd c = Some ERROR_OBJECT_ALREADY_EXISTS"
      by (simp add: addsAccepted_def)
    then show ?thesis
      by (auto simp: keptRoutes_single addedRoute_def List.map_filter_simps split: option.splits)
  next
    case False
    then have "addRouteOf (fst c) = None"
      by (cases "fst c") simp_all
    then show ?thesis
      by (simp add: keptRoutes_single addedRoute_def List.map_filter_simps)
  qed
  have "keptRoutes (c # tr) = keptRoutes [c] \<union> keptRoutes tr"
    using keptRoutes_append [of "[c]" tr] by simp
  also have "\<dots> = set (List.map_filter addRouteOf (map fst (c # tr)))"
    unfolding one Cons.IH [OF acc] by (simp add: List.map_filter_def)
  finally show ?case .
qed

lemma set_pairRoutes:
  "set (pairRoutes rs ds) = {routeKey r d | r d. r \<in> set rs \<and> d \<in> set ds}"
  by (auto simp: pairRoutes_def)

lemma pairRoutes_destination:
  "k \<in> set (pairRoutes rs ds) \<Longrightarrow> destination k \<in> set ds"
  by (auto simp: pairRoutes_def routeKey_def)

lemma set_put [simp]: "set (put k m) = insert k (set m)"
  by (auto simp: put_def)

subsection \<open>The two loops\<close>

lemma addRoutes_calls:
  "map fst (calls (addRoutes env dp r ds st)) =
   map fst (calls st) @ map (\<lambda>d. addCall (routeKey r d)) ds"
  by (induction ds arbitrary: st)
     (auto simp: addCall_def routeKey_def Let_def split: prod.splits option.splits)

lemma addRoutes_kept:
  "set (newRoutes st) = keptRoutes (calls st) \<Longrightarrow>
   set (newRoutes (addRoutes env dp r ds st)) = keptRoutes (calls (addRoutes env dp r ds st))"
proof (induction ds arbitrary: st)
  case Nil
  then show ?case by simp
next
  case (Cons d ds)
  show ?case
    by (cases "AddRoute env (os st) (InterfaceLUID r) d (NextHop r) 0")
       (auto simp: Let_def keptRoutes_single addedRoute_def Cons.prems intro!: Cons.IH
          split: option.splits)
qed

lemma addRoutes_logs:
  "logs st = loggedLines (calls st) \<Longrightarrow>
   logs (addRoutes env dp r ds st) = loggedLines (calls (addRoutes env dp r ds st))"
proof (induction ds arbitrary: st)
  case Nil
  then show ?case by simp
next
  case (Cons d ds)
  show ?case
    by (cases "AddRoute env (os st) (InterfaceLUID r) d (NextHop r) 0")
       (auto simp: Let_def loggedLines_single Cons.prems intro!: Cons.IH split: option.splits)
qed

lemma deleteStale_newRoutes [simp]:
  "newRoutes (deleteStale env dp rs st) = newRoutes st"
  by (induction rs arbitrary: st) (auto simp: Let_def split: prod.splits option.splits)

lemma deleteStale_calls:
  "map fst (calls (deleteStale env dp rs st)) =
   map fst (calls st) @ map deleteCall (filter (\<lambda>r. r \<notin> set (newRoutes st)) rs)"
  by (induction rs arbitrary: st)
     (auto simp: deleteCall_def Let_def split: prod.splits option.splits)

lemma deleteStale_kept:
  "keptRoutes (calls (deleteStale env dp rs st)) = keptRoutes (calls st)"
  by (induction rs arbitrary: st)
     (auto simp: Let_def keptRoutes_single addedRoute_def split: prod.splits option.splits)

lemma deleteStale_logs:
  "logs st = loggedLines (calls st) \<Longrightarrow>
   logs (deleteStale env dp rs st) = loggedLines (calls (deleteStale env dp rs st))"
proof (induction rs arbitrary: st)
  case Nil
  then show ?case by simp
next
  case (Cons r rs)
  show ?case
    by (cases "DeleteRoute env (os st) (luid r) (destination r) (nextHop r)")
       (auto simp: Let_def loggedLines_single Cons.prems intro!: Cons.IH split: option.splits)
qed

lemma deleteStale_accepted:
  "addsAccepted (calls (deleteStale env dp rs st)) = addsAccepted (calls st)"
  by (induction rs arbitrary: st) (auto simp: Let_def split: prod.splits option.splits)

lemma deleteStale_nothing:
  "\<forall>r\<in>set rs. r \<in> set (newRoutes st) \<Longrightarrow> deleteStale env dp rs st = st"
  by (induction rs arbitrary: st) simp_all

lemma fold_addRoutes_calls:
  "map fst (calls (fold (\<lambda>r st. addRoutes env dp r ds st) rs st)) =
   map fst (calls st) @ map addCall (pairRoutes rs ds)"
  by (induction rs arbitrary: st) (simp_all add: pairRoutes_def addRoutes_calls comp_def)

lemma fold_addRoutes_kept:
  "set (newRoutes st) = keptRoutes (calls st) \<Longrightarrow>
   set (newRoutes (fold (\<lambda>r st. addRoutes env dp r ds st) rs st)) =
   keptRoutes (calls (fold (\<lambda>r st. addRoutes env dp r ds st) rs st))"
  by (induction rs arbitrary: st) (simp_all add: addRoutes_kept)

lemma fold_addRoutes_logs:
  "logs st = loggedLines (calls st) \<Longrightarrow>
   logs (fold (\<lambda>r st. addRoutes env dp r ds st) rs st) =
   loggedLines (calls (fold (\<lambda>r st. addRoutes env dp r ds st) rs st))"
  by (induction rs arbitrary: st) (simp_all add: addRoutes_logs)

subsection \<open>The pass\<close>

text \<open>What a pass does, for every operating system.\<close>

lemma doIt_iterate:
  "GetIPForwardTable2 env family = Inr S \<Longrightarrow>
   iterateForeignDefaultRoutes env family ourLUID
     (\<lambda>r st. (None, addRoutes env dp r ds st)) st0 =
   (None, fold (\<lambda>r st. addRoutes env dp r ds st) (filter (foreignDefaultRoute env ourLUID) S) st0)"
  by (simp add: iterateForeignDefaultRoutes_def iterateRows_fold)

lemma doIt_pass:
  assumes tbl: "GetIPForwardTable2 env family = Inr S"
    and pass: "monitorProxyRoutes_doIt env family ourLUID dp b R0 s = (err, R1, e)"
  shows "err = None"
    and "set R1 = keptRoutes (calls e)"
    and "map fst (calls e) =
         map addCall (pairRoutes (filter (foreignDefaultRoute env ourLUID) S) (map fst dp)) @
         map deleteCall (filter (\<lambda>r. r \<notin> set R1) R0)"
    and "logs e = loggedLines (calls e)"
proof -
  let ?st0 = "\<lparr>os = s, calls = [], logs = [], newRoutes = [], proxiesToRestart = []\<rparr>"
  let ?st1 = "fold (\<lambda>r st. addRoutes env dp r (map fst dp) st)
                (filter (foreignDefaultRoute env ourLUID) S) ?st0"
  let ?st2 = "deleteStale env dp R0 ?st1"
  from pass have res: "err = None" "R1 = newRoutes ?st2"
    "e = \<lparr>os = os ?st2, calls = calls ?st2, logs = logs ?st2\<rparr>"
    by (simp_all add: monitorProxyRoutes_doIt_def doIt_iterate [OF tbl] Let_def)
  show "err = None" by (rule res)
  have k1: "set (newRoutes ?st1) = keptRoutes (calls ?st1)"
    by (rule fold_addRoutes_kept) simp
  show "set R1 = keptRoutes (calls e)"
    by (simp add: res deleteStale_kept k1)
  have c1: "map fst (calls ?st1) =
            map addCall (pairRoutes (filter (foreignDefaultRoute env ourLUID) S) (map fst dp))"
    using fold_addRoutes_calls [of env dp "map fst dp" _ ?st0] by simp
  show "map fst (calls e) =
         map addCall (pairRoutes (filter (foreignDefaultRoute env ourLUID) S) (map fst dp)) @
         map deleteCall (filter (\<lambda>r. r \<notin> set R1) R0)"
    by (simp add: res deleteStale_calls c1)
  have l1: "logs ?st1 = loggedLines (calls ?st1)"
    by (rule fold_addRoutes_logs) simp
  show "logs e = loggedLines (calls e)"
    by (simp add: res deleteStale_logs [OF l1])
qed

lemma doIt_read_failure:
  assumes tbl: "GetIPForwardTable2 env family = Inl x"
  shows "monitorProxyRoutes_doIt env family ourLUID dp b R0 s =
         (Some x, R0, \<lparr>os = s, calls = [], logs = []\<rparr>)"
  by (simp add: monitorProxyRoutes_doIt_def iterateForeignDefaultRoutes_def tbl)

lemma doIt_fails:
  assumes "monitorProxyRoutes_doIt env family ourLUID dp b R0 s = (Some err, R1, e)"
  shows "R1 = R0 \<and> e = \<lparr>os = s, calls = [], logs = []\<rparr>"
proof (cases "GetIPForwardTable2 env family")
  case (Inl x)
  from assms show ?thesis
    unfolding doIt_read_failure [OF Inl] by simp
next
  case (Inr S)
  from doIt_pass(1) [OF Inr assms] show ?thesis by simp
qed

lemma doIt_accepted:
  assumes tbl: "GetIPForwardTable2 env family = Inr S"
    and pass: "monitorProxyRoutes_doIt env family ourLUID dp b R0 s = (err, R1, e)"
    and acc: "addsAccepted (calls e)"
  shows "set R1 = set (pairRoutes (filter (foreignDefaultRoute env ourLUID) S) (map fst dp))"
  using doIt_pass(2,3) [OF tbl pass] acc
  by (simp add: keptRoutes_accepted map_filter_append)

subsection \<open>The destinations\<close>

lemma destProxy_append_keys [simp]:
  "fst ` set (destProxy_append m d p) = insert d (fst ` set m)"
  by (induction m d p rule: destProxy_append.induct) auto

lemma addAddresses_step:
  "addAddresses family p (a # addrs) m =
   addAddresses family p addrs
     (if ofFamily family a then destProxy_append m (hostPrefix a) p else m)"
  by (simp add: ofFamily_def hostPrefix_def AF_INET_def AF_INET6_def)

lemma addAddresses_keys:
  "fst ` set (addAddresses family p addrs m) =
   fst ` set m \<union> hostPrefix ` set (filter (ofFamily family) addrs)"
proof (induction addrs arbitrary: m)
  case Nil
  show ?case by simp
next
  case (Cons a addrs)
  show ?case
    unfolding addAddresses_step Cons.IH by auto
qed

lemma addProxies_keys:
  "fst ` set (addProxies family i ps m) =
   fst ` set m \<union> hostPrefix ` set (proxyAddresses family ps)"
  by (induction ps arbitrary: i m) (auto simp: proxyAddresses_def addAddresses_keys)

lemma buildDestProxy_keys:
  "set (map fst (buildDestProxy family proxies)) = hostPrefix ` set (proxyAddresses family proxies)"
  by (simp add: buildDestProxy_def addProxies_keys)

subsection \<open>The examples\<close>

lemmas proxy_example_simps =
  monitorProxyRoutes_doIt_def iterateForeignDefaultRoutes_def exampleOS_def exampleRow_def
  brokenOS_def AF_INET_def AF_INET6_def buildDestProxy_def exampleProxies_def exampleRoute_def
  PrefixFrom_def routeTable_add_def routeTable_delete_def put_def destProxy_get_def Let_def

lemma ex_dp: "buildDestProxy AF_INET exampleProxies =
   [(\<lparr>Prefix_Addr = Addr4 3232235777, Prefix_Bits = 32\<rparr>, [0])]"
  by (simp add: proxy_example_simps)

lemma ex_pass1:
  "monitorProxyRoutes_doIt (exampleOS [exampleRow 10] 25 1500 (Inr 2)) AF_INET 1
         (buildDestProxy AF_INET exampleProxies) False [] [] =
   (None, [exampleRoute],
    \<lparr>os = [exampleRoute], calls = [(addCall exampleRoute, None)], logs = []\<rparr>)"
  by (simp add: proxy_example_simps addCall_def)

lemma ex_pass2:
  "monitorProxyRoutes_doIt (exampleOS [exampleRow 10] 25 1500 (Inr 2)) AF_INET 1
         (buildDestProxy AF_INET exampleProxies) True [exampleRoute] [exampleRoute] =
   (None, [exampleRoute],
    \<lparr>os = [exampleRoute], calls = [(addCall exampleRoute, Some ERROR_OBJECT_ALREADY_EXISTS)], logs = []\<rparr>)"
  by (simp add: proxy_example_simps addCall_def)


subsection \<open>Convergence and failures of single routes\<close>

text \<open>
  C1. For every topology snapshot \<open>S\<close> and every list of proxies, after a pass over
  \<open>S\<close> in which every route add succeeds or reports already-exists, the tracked set
  \<^verbatim>\<open>ourRoutes\<close> is exactly the set of the keys that pair every up foreign default
  route of \<open>S\<close> with the host prefix of every proxy address of the monitor's family.
\<close>

theorem doIt_tracks_every_pair:
  assumes "GetIPForwardTable2 env family = Inr S"
    and "monitorProxyRoutes_doIt env family ourLUID (buildDestProxy family proxies)
           restartProxies R0 s = (err, R1, e)"
    and "addsAccepted (calls e)"
  shows "err = None \<and>
         set R1 = {routeKey r (hostPrefix a) | r a.
                     r \<in> set S \<and> foreignDefaultRoute env ourLUID r \<and>
                     a \<in> set (proxyAddresses family proxies)}"
proof -
  have "set R1 = set (pairRoutes (filter (foreignDefaultRoute env ourLUID) S)
                        (map fst (buildDestProxy family proxies)))"
    by (rule doIt_accepted [OF assms])
  also have "\<dots> = {routeKey r (hostPrefix a) | r a.
                     r \<in> set S \<and> foreignDefaultRoute env ourLUID r \<and>
                     a \<in> set (proxyAddresses family proxies)}"
    unfolding set_pairRoutes buildDestProxy_keys by auto
  finally show ?thesis
    using doIt_pass(1) [OF assms(1,2)] by simp
qed

theorem doIt_tracks_every_pair_witness:
  "GetIPForwardTable2 (exampleOS [exampleRow 10] 25 1500 (Inr 2)) AF_INET = Inr [exampleRow 10] \<and>
   monitorProxyRoutes_doIt (exampleOS [exampleRow 10] 25 1500 (Inr 2)) AF_INET 1
         (buildDestProxy AF_INET exampleProxies) False [] [] =
     (None, [exampleRoute],
      \<lparr>os = [exampleRoute], calls = [(addCall exampleRoute, None)], logs = []\<rparr>) \<and>
   addsAccepted [(addCall exampleRoute, None)] \<and>
   set [exampleRoute] =
     {routeKey r (hostPrefix a) | r a.
        r \<in> set [exampleRow 10] \<and>
        foreignDefaultRoute (exampleOS [exampleRow 10] 25 1500 (Inr 2)) 1 r \<and>
        a \<in> set (proxyAddresses AF_INET exampleProxies)}"
proof -
  have h1: "GetIPForwardTable2 (exampleOS [exampleRow 10] 25 1500 (Inr 2)) AF_INET =
            Inr [exampleRow 10]"
    by (simp add: exampleOS_def)
  have h3: "addsAccepted (calls \<lparr>os = [exampleRoute], calls = [(addCall exampleRoute, None)],
                                 logs = []\<rparr>)"
    by (simp add: addsAccepted_def)
  from doIt_tracks_every_pair [OF h1 ex_pass1 h3] h1 ex_pass1 h3 show ?thesis
    by simp
qed



subsection \<open>A second pass\<close>

lemma length_pairRoutes: "length (pairRoutes rs ds) = length rs * length ds"
  by (induction rs) (simp_all add: pairRoutes_def)

lemma isAddRoute_addCall [simp]: "isAddRoute (addCall k)"
  by (simp add: addCall_def)

text \<open>
  C2, as the claim states it, fails: a pass calls \<^verbatim>\<open>AddRoute\<close> for every desired
  route without looking at \<^verbatim>\<open>ourRoutes\<close>, so the second pass makes the add call
  again. On the example, the first pass adds the route and the second pass adds it
  again and is told that it exists.
\<close>

theorem doIt_second_pass_adds_again:
  "monitorProxyRoutes_doIt (exampleOS [exampleRow 10] 25 1500 (Inr 2)) AF_INET 1
         (buildDestProxy AF_INET exampleProxies) False [] [] =
     (None, [exampleRoute],
      \<lparr>os = [exampleRoute], calls = [(addCall exampleRoute, None)], logs = []\<rparr>) \<and>
   monitorProxyRoutes_doIt (exampleOS [exampleRow 10] 25 1500 (Inr 2)) AF_INET 1
         (buildDestProxy AF_INET exampleProxies) True [exampleRoute] [exampleRoute] =
     (None, [exampleRoute],
      \<lparr>os = [exampleRoute],
       calls = [(addCall exampleRoute, Some ERROR_OBJECT_ALREADY_EXISTS)], logs = []\<rparr>)"
  using ex_pass1 ex_pass2 by simp

text \<open>
  C2, amended. For every operating system, every fixed topology snapshot and every
  fixed set of destinations: when every add of a first pass succeeded or reported
  already-exists, and the pass is run a second time immediately after it with every
  add again succeeding or reporting already-exists, the second run makes no delete
  call and leaves the set of the tracked routes unchanged. Its only calls are add
  calls: the add call of every desired route, one for every pair of an up foreign
  default route and a destination, made again.
\<close>

theorem doIt_second_pass_no_delete:
  assumes tbl: "GetIPForwardTable2 env family = Inr S"
    and pass1: "monitorProxyRoutes_doIt env family ourLUID dp b1 R0 s = (err1, R1, e1)"
    and acc1: "addsAccepted (calls e1)"
    and pass2: "monitorProxyRoutes_doIt env family ourLUID dp b2 R1 (os e1) = (err2, R2, e2)"
    and acc2: "addsAccepted (calls e2)"
  shows "err2 = None \<and> set R2 = set R1 \<and>
         list_all (\<lambda>c. isAddRoute (fst c)) (calls e2) \<and>
         set (map fst (calls e2)) =
           addCall ` set (pairRoutes (filter (foreignDefaultRoute env ourLUID) S) (map fst dp)) \<and>
         length (calls e2) = length (filter (foreignDefaultRoute env ourLUID) S) * length dp"
proof -
  let ?pairs = "pairRoutes (filter (foreignDefaultRoute env ourLUID) S) (map fst dp)"
  from doIt_accepted [OF tbl pass1 acc1] have set1: "set R1 = set ?pairs" .
  from doIt_accepted [OF tbl pass2 acc2] have set2: "set R2 = set ?pairs" .
  have "filter (\<lambda>r. r \<notin> set R2) R1 = []"
    by (simp add: set1 set2)
  with doIt_pass(3) [OF tbl pass2]
  have c2: "map fst (calls e2) = map addCall ?pairs"
    by simp
  have adds: "list_all (\<lambda>c. isAddRoute (fst c)) (calls e2)"
  proof -
    have "list_all isAddRoute (map fst (calls e2))"
      unfolding c2 by (simp add: list_all_iff)
    then show ?thesis by (simp add: list_all_iff)
  qed
  have "length (calls e2) = length (map fst (calls e2))" by simp
  also have "\<dots> = length (filter (foreignDefaultRoute env ourLUID) S) * length dp"
    unfolding c2 by (simp add: length_pairRoutes)
  finally have len: "length (calls e2) = length (filter (foreignDefaultRoute env ourLUID) S) * length dp" .
  have "set (map fst (calls e2)) = addCall ` set ?pairs"
    unfolding c2 by simp
  with doIt_pass(1) [OF tbl pass2] set1 set2 adds len show ?thesis
    by simp
qed

theorem doIt_second_pass_no_delete_witness:
  "GetIPForwardTable2 (exampleOS [exampleRow 10] 25 1500 (Inr 2)) AF_INET = Inr [exampleRow 10] \<and>
   monitorProxyRoutes_doIt (exampleOS [exampleRow 10] 25 1500 (Inr 2)) AF_INET 1
         (buildDestProxy AF_INET exampleProxies) False [] [] =
     (None, [exampleRoute],
      \<lparr>os = [exampleRoute], calls = [(addCall exampleRoute, None)], logs = []\<rparr>) \<and>
   addsAccepted [(addCall exampleRoute, None)] \<and>
   monitorProxyRoutes_doIt (exampleOS [exampleRow 10] 25 1500 (Inr 2)) AF_INET 1
         (buildDestProxy AF_INET exampleProxies) True [exampleRoute] [exampleRoute] =
     (None, [exampleRoute],
      \<lparr>os = [exampleRoute],
       calls = [(addCall exampleRoute, Some ERROR_OBJECT_ALREADY_EXISTS)], logs = []\<rparr>) \<and>
   addsAccepted [(addCall exampleRoute, Some ERROR_OBJECT_ALREADY_EXISTS)] \<and>
   set [exampleRoute] = set [exampleRoute] \<and>
   list_all (\<lambda>c. isAddRoute (fst c)) [(addCall exampleRoute, Some ERROR_OBJECT_ALREADY_EXISTS)] \<and>
   set (map fst [(addCall exampleRoute, Some ERROR_OBJECT_ALREADY_EXISTS)]) =
     addCall ` set (pairRoutes
          (filter (foreignDefaultRoute (exampleOS [exampleRow 10] 25 1500 (Inr 2)) 1)
             [exampleRow 10])
          (map fst (buildDestProxy AF_INET exampleProxies))) \<and>
   length [(addCall exampleRoute, Some ERROR_OBJECT_ALREADY_EXISTS)] =
     length (filter (foreignDefaultRoute (exampleOS [exampleRow 10] 25 1500 (Inr 2)) 1)
               [exampleRow 10]) *
     length (buildDestProxy AF_INET exampleProxies)"
proof -
  let ?env = "exampleOS [exampleRow 10] 25 1500 (Inr 2)"
  have h1: "GetIPForwardTable2 ?env AF_INET = Inr [exampleRow 10]"
    by (simp add: exampleOS_def)
  have a1: "addsAccepted (calls \<lparr>os = [exampleRoute], calls = [(addCall exampleRoute, None)],
                                 logs = []\<rparr>)"
    by (simp add: addCall_def)
  have p2: "monitorProxyRoutes_doIt ?env AF_INET 1
         (buildDestProxy AF_INET exampleProxies) True [exampleRoute]
         (os \<lparr>os = [exampleRoute], calls = [(addCall exampleRoute, None)], logs = []\<rparr>) =
     (None, [exampleRoute],
      \<lparr>os = [exampleRoute],
       calls = [(addCall exampleRoute, Some ERROR_OBJECT_ALREADY_EXISTS)], logs = []\<rparr>)"
    using ex_pass2 by simp
  have a2: "addsAccepted (calls \<lparr>os = [exampleRoute],
       calls = [(addCall exampleRoute, Some ERROR_OBJECT_ALREADY_EXISTS)], logs = []\<rparr>)"
    by (simp add: addCall_def)
  from doIt_second_pass_no_delete [OF h1 ex_pass1 a1 p2 a2] h1 ex_pass1 ex_pass2 a1 a2
  show ?thesis by simp
qed

section \<open>Start and teardown of the route monitor\<close>

lemma cleanRoutes_calls:
  "map fst (calls (cleanRoutes env rs e)) = map fst (calls e) @ map deleteCall rs"
  by (induction rs arbitrary: e)
     (auto simp: deleteCall_def Let_def split: prod.splits option.splits)

lemma cleanIt_result:
  "cleanIt env R s = (R', e) \<Longrightarrow> R' = [] \<and> map fst (calls e) = map deleteCall R"
  using cleanRoutes_calls [of env R "\<lparr>os = s, calls = [], logs = []\<rparr>"]
  by (auto simp: cleanIt_def)

lemma cleanRoutes_table:
  assumes "DeleteRoute env = routeTable_delete"
  shows "set (os (cleanRoutes env rs e)) = set (os e) - set rs"
proof (induction rs arbitrary: e)
  case Nil
  show ?case by simp
next
  case (Cons r rs)
  have r: "\<lparr>luid = luid r, destination = destination r, nextHop = nextHop r\<rparr> = r"
    by simp
  show ?case
    by (auto simp: assms routeTable_delete_def Let_def r Cons.IH)
qed

lemma ex_start_fails:
  "monitorProxyRoutes (exampleOS [exampleRow 10] 25 1500 (Inl (ERROR_OTHER 7))) AF_INET 1
      exampleProxies [] =
   (Inl (ERROR_OTHER 7), [],
    \<lparr>os = [],
     calls = [(addCall exampleRoute, None), (CallUnregister 1, None),
              (deleteCall exampleRoute, None)],
     logs = []\<rparr>)"
  by (simp add: monitorProxyRoutes_def proxy_example_simps addCall_def deleteCall_def cleanIt_def
      andThen_def)

lemma ex_pass1_fail: 
  "monitorProxyRoutes_doIt (exampleOS [exampleRow 10] 25 1500 (Inl (ERROR_OTHER 7))) AF_INET 1
         (buildDestProxy AF_INET exampleProxies) False [] [] =
   (None, [exampleRoute],
    \<lparr>os = [exampleRoute], calls = [(addCall exampleRoute, None)], logs = []\<rparr>)"
  by (simp add: proxy_example_simps addCall_def)

text \<open>
  C5. If the first pass of \<open>monitorProxyRoutes\<close> succeeds, the first registration
  succeeds and the second fails, the function returns the error of the second
  registration after it has unregistered the first callback and then called
  \<^verbatim>\<open>DeleteRoute\<close> for every tracked route, and it leaves \<^verbatim>\<open>ourRoutes\<close> empty. On a
  route table that deletes the routes it holds, none of the tracked routes is left
  in the table.
\<close>

theorem monitorProxyRoutes_rolls_back:
  assumes "monitorProxyRoutes_doIt env family ourLUID (buildDestProxy family proxies) False [] s =
             (None, R1, e1)"
    and "RegisterRouteChangeCallback env = Inr cbr"
    and "RegisterInterfaceChangeCallback env = Inl err"
    and "monitorProxyRoutes env family ourLUID proxies s = (res, R2, e2)"
  shows "res = Inl err \<and> R2 = [] \<and>
         (\<exists>uerr tr. calls e2 = calls e1 @ [(CallUnregister cbr, uerr)] @ tr \<and>
                    map fst tr = map deleteCall R1) \<and>
         (DeleteRoute env = routeTable_delete \<longrightarrow> set (os e2) \<inter> set R1 = {})"
proof -
  obtain uerr s' where u: "Unregister env (os e1) cbr = (uerr, s')"
    by (cases "Unregister env (os e1) cbr")
  obtain R' e' where c: "cleanIt env R1 s' = (R', e')"
    by (cases "cleanIt env R1 s'")
  from cleanIt_result [OF c] have R': "R' = []" and tr: "map fst (calls e') = map deleteCall R1"
    by simp_all
  from c have os': "os e' = os (cleanRoutes env R1 \<lparr>os = s', calls = [], logs = []\<rparr>)"
    by (auto simp: cleanIt_def)
  from assms u c have r: "res = Inl err" "R2 = R'"
    "e2 = andThen (e1\<lparr>os := s', calls := calls e1 @ [(CallUnregister cbr, uerr)]\<rparr>) e'"
    by (auto simp: monitorProxyRoutes_def Let_def)
  have "set (os e2) \<inter> set R1 = {}" if "DeleteRoute env = routeTable_delete"
    using cleanRoutes_table [OF that, of R1 "\<lparr>os = s', calls = [], logs = []\<rparr>"] r(3) os'
    by (auto simp: andThen_def)
  with r R' tr show ?thesis
    by (auto simp: andThen_def)
qed

theorem monitorProxyRoutes_rolls_back_witness:
  "monitorProxyRoutes_doIt (exampleOS [exampleRow 10] 25 1500 (Inl (ERROR_OTHER 7))) AF_INET 1
         (buildDestProxy AF_INET exampleProxies) False [] [] =
     (None, [exampleRoute],
      \<lparr>os = [exampleRoute], calls = [(addCall exampleRoute, None)], logs = []\<rparr>) \<and>
   RegisterRouteChangeCallback (exampleOS [exampleRow 10] 25 1500 (Inl (ERROR_OTHER 7))) = Inr 1 \<and>
   RegisterInterfaceChangeCallback (exampleOS [exampleRow 10] 25 1500 (Inl (ERROR_OTHER 7))) =
     Inl (ERROR_OTHER 7) \<and>
   monitorProxyRoutes (exampleOS [exampleRow 10] 25 1500 (Inl (ERROR_OTHER 7))) AF_INET 1
      exampleProxies [] =
     (Inl (ERROR_OTHER 7), [],
      \<lparr>os = [],
       calls = [(addCall exampleRoute, None), (CallUnregister 1, None),
                (deleteCall exampleRoute, None)],
       logs = []\<rparr>) \<and>
   (\<exists>uerr tr. [(addCall exampleRoute, None), (CallUnregister 1, None),
               (deleteCall exampleRoute, None)] =
              [(addCall exampleRoute, None)] @ [(CallUnregister 1, uerr)] @ tr \<and>
              map fst tr = map deleteCall [exampleRoute]) \<and>
   set ([] :: luidRouteData list) \<inter> set [exampleRoute] = {}"
proof -
  have h2: "RegisterRouteChangeCallback (exampleOS [exampleRow 10] 25 1500 (Inl (ERROR_OTHER 7))) =
            Inr 1"
    and h3: "RegisterInterfaceChangeCallback
               (exampleOS [exampleRow 10] 25 1500 (Inl (ERROR_OTHER 7))) = Inl (ERROR_OTHER 7)"
    by (simp_all add: exampleOS_def)
  from monitorProxyRoutes_rolls_back [OF ex_pass1_fail h2 h3 ex_start_fails]
    ex_pass1_fail h2 h3 ex_start_fails
  show ?thesis by simp
qed

section \<open>The invariant of the tracked routes\<close>

lemma doIt_tracksProxies:
  assumes pass: "monitorProxyRoutes_doIt env family ourLUID (buildDestProxy family proxies) b R0 s =
                   (err, R1, e)"
    and inv: "tracksProxies family proxies R0"
  shows "tracksProxies family proxies R1"
proof (cases "GetIPForwardTable2 env family")
  case (Inl x)
  from pass inv show ?thesis
    unfolding doIt_read_failure [OF Inl] by simp
next
  case (Inr S)
  let ?pairs = "pairRoutes (filter (foreignDefaultRoute env ourLUID) S)
                  (map fst (buildDestProxy family proxies))"
  from doIt_pass(2,3) [OF Inr pass] keptRoutes_subset [of "calls e"]
  have "set R1 \<subseteq> set ?pairs"
    by (simp add: map_filter_append)
  then have "\<forall>k\<in>set R1. destination k \<in> set (map fst (buildDestProxy family proxies))"
    using pairRoutes_destination by blast
  then have "\<forall>k\<in>set R1. destination k \<in> hostPrefix ` set (proxyAddresses family proxies)"
    unfolding buildDestProxy_keys .
  then show ?thesis
    by (auto simp: tracksProxies_def list_all_iff hostPrefix_def)
qed

lemma event_tracksProxies:
  assumes "monitorProxyRoutes_event family ourLUID (buildDestProxy family proxies) ev (R0, s) = (R1, s')"
    and "tracksProxies family proxies R0"
  shows "tracksProxies family proxies R1"
proof (cases ev)
  case (RouteChange env n route)
  with assms show ?thesis
    by (auto simp: monitorProxyRoutes_routeChangeCallback_def
        split: option.splits if_splits prod.splits dest: doIt_tracksProxies)
next
  case (InterfaceChange env n iface)
  with assms show ?thesis
    by (auto simp: monitorProxyRoutes_interfaceChangeCallback_def
        split: option.splits if_splits prod.splits dest: doIt_tracksProxies)
next
  case (Teardown env)
  with assms show ?thesis
    by (auto simp: cleanIt_def tracksProxies_def)
qed

lemma events_tracksProxies:
  "fold (monitorProxyRoutes_event family ourLUID (buildDestProxy family proxies)) events (R0, s) =
     (R1, s') \<Longrightarrow>
   tracksProxies family proxies R0 \<Longrightarrow> tracksProxies family proxies R1"
proof (induction events arbitrary: R0 s)
  case Nil
  then show ?case by simp
next
  case (Cons ev events)
  obtain Rm sm where m: "monitorProxyRoutes_event family ourLUID (buildDestProxy family proxies)
                           ev (R0, s) = (Rm, sm)"
    by (cases "monitorProxyRoutes_event family ourLUID (buildDestProxy family proxies) ev (R0, s)")
  from event_tracksProxies [OF m Cons.prems(2)] have "tracksProxies family proxies Rm" .
  with Cons.IH [of Rm sm] Cons.prems(1) m show ?case by simp
qed

lemma start_tracksProxies:
  assumes "monitorProxyRoutes env family ourLUID proxies s = (res, R1, e1)"
  shows "tracksProxies family proxies R1"
proof -
  obtain err R e where p: "monitorProxyRoutes_doIt env family ourLUID
                             (buildDestProxy family proxies) False [] s = (err, R, e)"
    by (cases "monitorProxyRoutes_doIt env family ourLUID (buildDestProxy family proxies) False [] s")
      auto
  have "tracksProxies family proxies []"
    by (simp add: tracksProxies_def)
  from doIt_tracksProxies [OF p this] have R: "tracksProxies family proxies R" .
  have empty: "tracksProxies family proxies []"
    by (simp add: tracksProxies_def)
  from assms p R empty show ?thesis
    by (auto simp: monitorProxyRoutes_def Let_def cleanIt_def
        split: option.splits sum.splits prod.splits)
qed

lemma hostPrefix_full:
  "ofFamily family a \<Longrightarrow> family = AF_INET \<or> family = AF_INET6 \<Longrightarrow>
   Prefix_Bits (PrefixFrom a (BitLen a)) = BitLen a \<and> a \<noteq> AddrZero \<and>
   Prefix_Bits (PrefixFrom a (BitLen a)) = (if family = AF_INET then 32 else 128)"
  by (cases a) (auto simp: ofFamily_def PrefixFrom_def AF_INET_def AF_INET6_def split: if_splits)

lemma tracksProxies_full:
  assumes "tracksProxies family proxies R" and "family = AF_INET \<or> family = AF_INET6"
  shows "list_all (\<lambda>k. Prefix_Bits (destination k) = (if family = AF_INET then 32 else 128)) R"
proof -
  have "Prefix_Bits (destination k) = (if family = AF_INET then 32 else 128)" if "k \<in> set R" for k
  proof -
    from assms(1) that obtain a where a: "a \<in> set (proxyAddresses family proxies)"
      and d: "destination k = PrefixFrom a (BitLen a)"
      by (auto simp: tracksProxies_def list_all_iff)
    from a have "ofFamily family a"
      by (simp add: proxyAddresses_def)
    from hostPrefix_full [OF this assms(2)] d show ?thesis
      by simp
  qed
  then show ?thesis
    by (simp add: list_all_iff)
qed

lemma ex_start:
  "monitorProxyRoutes (exampleOS [exampleRow 10] 25 1500 (Inr 2)) AF_INET 1 exampleProxies [] =
   (Inr [1, 2], [exampleRoute],
    \<lparr>os = [exampleRoute], calls = [(addCall exampleRoute, None)], logs = []\<rparr>)"
  by (simp add: monitorProxyRoutes_def proxy_example_simps addCall_def)

lemma ex_events:
  "monitorProxyRoutes_events AF_INET 1 exampleProxies
     [InterfaceChange (exampleOS [exampleRow 10] 25 1500 (Inr 2)) MibParameterNotification None,
      RouteChange (exampleOS [] 25 1500 (Inr 2)) MibDeleteInstance (Some (exampleRow 10)),
      RouteChange (exampleOS [exampleRow 10] 25 1500 (Inr 2)) MibAddInstance (Some (exampleRow 10))]
     ([exampleRoute],
      os \<lparr>os = [exampleRoute], calls = [(addCall exampleRoute, None)], logs = []\<rparr>) =
   ([exampleRoute], [exampleRoute])"
  by (simp add: monitorProxyRoutes_events_def monitorProxyRoutes_routeChangeCallback_def
      monitorProxyRoutes_interfaceChangeCallback_def proxy_example_simps)

text \<open>
  C8. The invariant holds of the empty set \<^verbatim>\<open>ourRoutes\<close> starts from, of the set
  \<open>monitorProxyRoutes\<close> leaves, and of the set after every sequence of callbacks and
  teardowns that follows, whatever the operating system does: the destination of
  every tracked route is \<^verbatim>\<open>PrefixFrom(addr, addr.BitLen())\<close> for a proxy address
  \<open>addr\<close> of the monitor's family, so a prefix of 32 bits for \<open>AF_INET\<close> and of 128
  bits for \<open>AF_INET6\<close>.
\<close>

theorem ourRoutes_tracks_proxies:
  assumes "monitorProxyRoutes env family ourLUID proxies s = (res, R1, e1)"
    and "monitorProxyRoutes_events family ourLUID proxies events (R1, os e1) = (R, s')"
  shows "tracksProxies family proxies [] \<and> tracksProxies family proxies R1 \<and>
         tracksProxies family proxies R \<and>
         (if family = AF_INET \<or> family = AF_INET6
          then list_all (\<lambda>k. Prefix_Bits (destination k) = (if family = AF_INET then 32 else 128)) R
          else True)"
proof -
  have R: "tracksProxies family proxies R"
    using start_tracksProxies [OF assms(1)]
      events_tracksProxies [OF assms(2) [unfolded monitorProxyRoutes_events_def]]
    by simp
  with start_tracksProxies [OF assms(1)] tracksProxies_full [OF R] show ?thesis
    by (simp add: tracksProxies_def)
qed

theorem ourRoutes_tracks_proxies_witness:
  "monitorProxyRoutes (exampleOS [exampleRow 10] 25 1500 (Inr 2)) AF_INET 1 exampleProxies [] =
     (Inr [1, 2], [exampleRoute],
      \<lparr>os = [exampleRoute], calls = [(addCall exampleRoute, None)], logs = []\<rparr>) \<and>
   monitorProxyRoutes_events AF_INET 1 exampleProxies
     [InterfaceChange (exampleOS [exampleRow 10] 25 1500 (Inr 2)) MibParameterNotification None,
      RouteChange (exampleOS [] 25 1500 (Inr 2)) MibDeleteInstance (Some (exampleRow 10)),
      RouteChange (exampleOS [exampleRow 10] 25 1500 (Inr 2)) MibAddInstance (Some (exampleRow 10))]
     ([exampleRoute], [exampleRoute]) =
     ([exampleRoute], [exampleRoute]) \<and>
   tracksProxies AF_INET exampleProxies [exampleRoute] \<and>
   list_all (\<lambda>k. Prefix_Bits (destination k) = 32) [exampleRoute]"
  using ourRoutes_tracks_proxies [OF ex_start ex_events] ex_start ex_events
  by simp

section \<open>The errors of the passes the callbacks start\<close>

lemma ex_mtu_refused:
  "monitorMTU_doIt (refusingOS [exampleRow 10]) AF_INET 1 mtuVars_init [] =
   (Some (ERROR_OTHER 7), \<lparr>lastLUID = 5, lastIndex = 7, lastMTU = 0\<rparr>,
    \<lparr>os = [],
     calls = [(CallSet 1 AF_INET \<lparr>InterfaceMetric = 25, NLMTU = 1420\<rparr>, Some (ERROR_OTHER 7))],
     logs = []\<rparr>)"
  by (simp add: example_simps refusingOS_def)

lemma ex_proxy_broken:
  "monitorProxyRoutes_doIt brokenOS AF_INET 1 (buildDestProxy AF_INET exampleProxies) b
     R0 s = (Some (ERROR_OTHER 5), R0, \<lparr>os = s, calls = [], logs = []\<rparr>)"
  by (simp add: doIt_read_failure brokenOS_def)

text \<open>
  C9. When a pass started by a change callback returns an error (the snapshot
  cannot be read, or the MTU cannot be applied), the callback ends with the
  variables and effects of that pass and nothing else: its result has no error, and
  no line is logged. The first pass, run by \<open>monitorMTU\<close> and by
  \<open>monitorProxyRoutes\<close> themselves, returns its error to the caller.
\<close>

theorem change_callbacks_discard_pass_error:
  "(monitorMTU_doIt env family ourLUID v s = (Some err, v', e) \<longrightarrow>
      logs e = [] \<and>
      monitorMTU_routeChangeCallback env family ourLUID n (Some (r\<lparr>PrefixLength := 0\<rparr>)) v s =
        (v', e) \<and>
      monitorMTU_interfaceChangeCallback env family ourLUID MibParameterNotification i v s =
        (v', e)) \<and>
   (monitorMTU_doIt env family ourLUID mtuVars_init s = (Some err, v', e) \<longrightarrow>
      monitorMTU env family ourLUID s = (Inl err, v', e)) \<and>
   (monitorProxyRoutes_doIt env family ourLUID dp True R0 s = (Some err, R', e) \<longrightarrow>
      logs e = [] \<and>
      monitorProxyRoutes_routeChangeCallback env family ourLUID dp n
        (Some (r\<lparr>PrefixLength := 0\<rparr>)) R0 s = (R', e) \<and>
      monitorProxyRoutes_interfaceChangeCallback env family ourLUID dp MibParameterNotification i
        R0 s = (R', e)) \<and>
   (monitorProxyRoutes_doIt env family ourLUID (buildDestProxy family proxies) False [] s =
      (Some err, R', e) \<longrightarrow>
      monitorProxyRoutes env family ourLUID proxies s = (Inl err, R', e))"
proof (intro conjI impI)
  assume a: "monitorMTU_doIt env family ourLUID v s = (Some err, v', e)"
  then show "logs e = []"
    by (auto simp: monitorMTU_doIt_def Let_def split: prod.splits option.splits sum.splits if_splits)
  from a show "monitorMTU_routeChangeCallback env family ourLUID n
                 (Some (r\<lparr>PrefixLength := 0\<rparr>)) v s = (v', e)"
    by (simp add: monitorMTU_routeChangeCallback_def)
  from a show "monitorMTU_interfaceChangeCallback env family ourLUID MibParameterNotification i
                 v s = (v', e)"
    by (simp add: monitorMTU_interfaceChangeCallback_def)
next
  assume "monitorMTU_doIt env family ourLUID mtuVars_init s = (Some err, v', e)"
  then show "monitorMTU env family ourLUID s = (Inl err, v', e)"
    by (simp add: monitorMTU_def)
next
  assume a: "monitorProxyRoutes_doIt env family ourLUID dp True R0 s = (Some err, R', e)"
  from doIt_fails [OF a] show "logs e = []" by simp
  from a show "monitorProxyRoutes_routeChangeCallback env family ourLUID dp n
                 (Some (r\<lparr>PrefixLength := 0\<rparr>)) R0 s = (R', e)"
    by (simp add: monitorProxyRoutes_routeChangeCallback_def)
  from a show "monitorProxyRoutes_interfaceChangeCallback env family ourLUID dp
                 MibParameterNotification i R0 s = (R', e)"
    by (simp add: monitorProxyRoutes_interfaceChangeCallback_def)
next
  assume "monitorProxyRoutes_doIt env family ourLUID (buildDestProxy family proxies) False [] s =
            (Some err, R', e)"
  then show "monitorProxyRoutes env family ourLUID proxies s = (Inl err, R', e)"
    by (simp add: monitorProxyRoutes_def)
qed

theorem change_callbacks_discard_pass_error_witness:
  "monitorMTU_doIt (refusingOS [exampleRow 10]) AF_INET 1 mtuVars_init [] =
     (Some (ERROR_OTHER 7), \<lparr>lastLUID = 5, lastIndex = 7, lastMTU = 0\<rparr>,
      \<lparr>os = [],
       calls = [(CallSet 1 AF_INET \<lparr>InterfaceMetric = 25, NLMTU = 1420\<rparr>, Some (ERROR_OTHER 7))],
       logs = []\<rparr>) \<and>
   monitorMTU_routeChangeCallback (refusingOS [exampleRow 10]) AF_INET 1 MibAddInstance
       (Some ((exampleRow 10)\<lparr>PrefixLength := 0\<rparr>)) mtuVars_init [] =
     (\<lparr>lastLUID = 5, lastIndex = 7, lastMTU = 0\<rparr>,
      \<lparr>os = [],
       calls = [(CallSet 1 AF_INET \<lparr>InterfaceMetric = 25, NLMTU = 1420\<rparr>, Some (ERROR_OTHER 7))],
       logs = []\<rparr>) \<and>
   monitorMTU (refusingOS [exampleRow 10]) AF_INET 1 [] =
     (Inl (ERROR_OTHER 7), \<lparr>lastLUID = 5, lastIndex = 7, lastMTU = 0\<rparr>,
      \<lparr>os = [],
       calls = [(CallSet 1 AF_INET \<lparr>InterfaceMetric = 25, NLMTU = 1420\<rparr>, Some (ERROR_OTHER 7))],
       logs = []\<rparr>) \<and>
   monitorProxyRoutes_doIt brokenOS AF_INET 1 (buildDestProxy AF_INET exampleProxies) True
       [exampleRoute] [exampleRoute] =
     (Some (ERROR_OTHER 5), [exampleRoute], \<lparr>os = [exampleRoute], calls = [], logs = []\<rparr>) \<and>
   monitorProxyRoutes_interfaceChangeCallback brokenOS AF_INET 1
       (buildDestProxy AF_INET exampleProxies) MibParameterNotification None
       [exampleRoute] [exampleRoute] =
     ([exampleRoute], \<lparr>os = [exampleRoute], calls = [], logs = []\<rparr>) \<and>
   monitorProxyRoutes brokenOS AF_INET 1 exampleProxies [] =
     (Inl (ERROR_OTHER 5), [], \<lparr>os = [], calls = [], logs = []\<rparr>)"
  using change_callbacks_discard_pass_error [where env = "refusingOS [exampleRow 10]" and family = AF_INET and ourLUID = 1
              and v = mtuVars_init and s = "[]" and err = "ERROR_OTHER 7"
              and v' = "\<lparr>lastLUID = 5, lastIndex = 7, lastMTU = 0\<rparr>"
              and e = "\<lparr>os = [],
                        calls = [(CallSet 1 AF_INET \<lparr>InterfaceMetric = 25, NLMTU = 1420\<rparr>,
                                  Some (ERROR_OTHER 7))],
                        logs = []\<rparr>"
              and n = MibAddInstance and r = "exampleRow 10" and i = None]
    change_callbacks_discard_pass_error [where env = brokenOS and family = AF_INET and ourLUID = 1 and err = "ERROR_OTHER 5"
          and dp = "buildDestProxy AF_INET exampleProxies" and ?R0.0 = "[exampleRoute]"
          and s = "[exampleRoute]" and R' = "[exampleRoute]"
          and e = "\<lparr>os = [exampleRoute], calls = [], logs = []\<rparr>"
          and n = MibAddInstance and i = None]
    change_callbacks_discard_pass_error [where env = brokenOS and family = AF_INET and ourLUID = 1 and err = "ERROR_OTHER 5"
          and proxies = exampleProxies and s = "[]" and R' = "[]"
          and e = "\<lparr>os = [], calls = [], logs = []\<rparr>"]
    ex_mtu_refused ex_proxy_broken
  by simp

section \<open>The slice spawnProxies returns\<close>

lemma parseAddrs_result:
  "parseAddrs env ips m = Inr m' \<Longrightarrow> distinct m \<Longrightarrow>
   distinct m' \<and>
   set m' = set m \<union> set (List.map_filter
              (\<lambda>ip. case ParseAddr env ip of Inl err \<Rightarrow> None | Inr addr \<Rightarrow> Some addr) ips)"
proof (induction ips arbitrary: m)
  case Nil
  then show ?case by (simp add: List.map_filter_simps)
next
  case (Cons ip ips)
  then show ?case
    by (auto simp: List.map_filter_simps split: sum.splits if_splits)
qed

lemma spawnPeers_result:
  "spawnPeers env peers m = Some (Inr m') \<Longrightarrow> distinct m \<Longrightarrow>
   distinct m' \<and> set m' = set m \<union> resolvedAddresses env peers"
proof (induction peers arbitrary: m)
  case Nil
  then show ?case by (simp add: resolvedAddresses_def)
next
  case (Cons peer peers)
  show ?case
  proof (cases "ProxyEndpoint peer = []")
    case True
    with Cons show ?thesis
      by (simp add: resolvedAddresses_def resolved_def)
  next
    case False
    from Cons.prems(1) False obtain hostname pips m1 where
      u: "url_Parse env (ProxyEndpoint peer) = Inr hostname"
      and l: "LookupHost env hostname = Inr pips"
      and p: "parseAddrs env pips m = Inr m1"
      and rest: "spawnPeers env peers m1 = Some (Inr m')"
      by (auto split: sum.splits option.splits)
    from parseAddrs_result [OF p Cons.prems(2)]
    have d1: "distinct m1" and s1: "set m1 = set m \<union> set (resolved env peer)"
      using False u l by (simp_all add: resolved_def)
    from Cons.IH [OF rest d1] s1 show ?thesis
      by (auto simp: resolvedAddresses_def)
  qed
qed

lemma fold_append_each: "fold (\<lambda>addr proxies. proxies @ [addr]) m xs = xs @ m"
  by (induction m arbitrary: xs) simp_all

lemma parseAddrs_succeeds:
  "list_all (\<lambda>ip. case ParseAddr env ip of Inl err \<Rightarrow> False | Inr addr \<Rightarrow> True) ips \<Longrightarrow>
   \<exists>m'. parseAddrs env ips m = Inr m'"
  by (induction ips arbitrary: m) (auto split: sum.splits)

lemma spawnPeers_succeeds:
  "list_all (peerStarts env) peers \<Longrightarrow> \<exists>m'. spawnPeers env peers m = Some (Inr m')"
proof (induction peers arbitrary: m)
  case Nil
  show ?case by simp
next
  case (Cons peer peers)
  from Cons.prems have first: "peerStarts env peer" and rest: "list_all (peerStarts env) peers"
    by simp_all
  show ?case
  proof (cases "ProxyEndpoint peer = []")
    case True
    with Cons.IH [OF rest] show ?thesis by simp
  next
    case False
    with first obtain hostname pips where
      u: "url_Parse env (ProxyEndpoint peer) = Inr hostname"
      and l: "LookupHost env hostname = Inr pips"
      and a: "list_all (\<lambda>ip. case ParseAddr env ip of Inl err \<Rightarrow> False | Inr addr \<Rightarrow> True) pips"
      and r: "proxyReady env peer pips = Some None"
      by (auto simp: peerStarts_def split: sum.splits)
    from parseAddrs_succeeds [OF a] obtain m1 where p: "parseAddrs env pips m = Inr m1"
      by blast
    from Cons.IH [OF rest, of m1] False u l p r show ?thesis
      by simp
  qed
qed

lemma ex_spawn: "spawnProxies exampleResolver examplePeers =
   Some (Inr [AddrZero, AddrZero, Addr4 3232235777, Addr6 1 []])"
  by (simp add: spawnProxies_def exampleResolver_def examplePeers_def)

lemma ex_resolved: "resolvedAddresses exampleResolver examplePeers = {Addr4 3232235777, Addr6 1 []}"
  by (auto simp: resolvedAddresses_def resolved_def exampleResolver_def examplePeers_def
      List.map_filter_simps)

lemma ex_starts: "list_all (peerStarts exampleResolver) examplePeers"
  by (simp add: peerStarts_def exampleResolver_def examplePeers_def)

text \<open>
  C10. When every peer starts, \<open>spawnProxies\<close> returns, and for the \<open>n\<close> distinct
  addresses the proxied peers resolve to, the slice it returns has the length
  \<open>2 * n\<close>; its first \<open>n\<close> elements are the zero value of \<^verbatim>\<open>netip.Addr\<close>, and the
  resolved addresses come after them.
\<close>

theorem spawnProxies_zero_prefix:
  assumes "list_all (peerStarts env) peers"
  shows "\<exists>proxies. spawnProxies env peers = Some (Inr proxies) \<and>
           length proxies = 2 * card (resolvedAddresses env peers) \<and>
           take (card (resolvedAddresses env peers)) proxies =
             replicate (card (resolvedAddresses env peers)) AddrZero \<and>
           set (drop (card (resolvedAddresses env peers)) proxies) =
             resolvedAddresses env peers"
proof -
  from spawnPeers_succeeds [OF assms] obtain m where m: "spawnPeers env peers [] = Some (Inr m)"
    by blast
  then have px: "spawnProxies env peers = Some (Inr (replicate (length m) AddrZero @ m))"
    by (simp add: spawnProxies_def fold_append_each)
  from spawnPeers_result [OF m] have "distinct m" "set m = resolvedAddresses env peers"
    by simp_all
  then have "card (resolvedAddresses env peers) = length m"
    using distinct_card by fastforce
  with px \<open>set m = resolvedAddresses env peers\<close> show ?thesis
    by simp
qed

theorem spawnProxies_zero_prefix_witness:
  "list_all (peerStarts exampleResolver) examplePeers \<and>
   spawnProxies exampleResolver examplePeers =
     Some (Inr [AddrZero, AddrZero, Addr4 3232235777, Addr6 1 []]) \<and>
   card (resolvedAddresses exampleResolver examplePeers) = 2 \<and>
   (\<exists>proxies. spawnProxies exampleResolver examplePeers = Some (Inr proxies) \<and>
      length proxies = 2 * card (resolvedAddresses exampleResolver examplePeers) \<and>
      take (card (resolvedAddresses exampleResolver examplePeers)) proxies =
        replicate (card (resolvedAddresses exampleResolver examplePeers)) AddrZero \<and>
      set (drop (card (resolvedAddresses exampleResolver examplePeers)) proxies) =
        resolvedAddresses exampleResolver examplePeers)"
proof -
  have c: "card (resolvedAddresses exampleResolver examplePeers) = 2"
    by (simp add: ex_resolved)
  from spawnProxies_zero_prefix [OF ex_starts] ex_starts ex_spawn c show ?thesis
    by blast
qed

end
